theory Spec2Isabelle
  imports Complex_Main "HOL-Library.Sublist"
begin

section \<open>Python values shared by both scripts\<close>

text \<open>
  An exception caught by \<^verbatim>\<open>except Exception as e\<close> is kept as the value
  \<open>PyException (str e)\<close>. Signals that are not subclasses of \<^verbatim>\<open>Exception\<close>
  (KeyboardInterrupt, SystemExit) are outside the model.

  Python \<^verbatim>\<open>int\<close> is \<open>int\<close>; a \<^verbatim>\<open>float\<close> is read as the real number it
  denotes (the code only compares and stores such values); \<^verbatim>\<open>str\<close> is \<open>string\<close>.
\<close>

datatype py_exception = PyException string

section \<open>chord-sets-processor.py: class ChordSetsProcessor\<close>

subsection \<open>MIDI input as delivered by mido\<close>

text \<open>
  A mido message, by \<^verbatim>\<open>msg.type\<close>. The first argument of every constructor is
  \<^verbatim>\<open>msg.time\<close> (delta ticks); then \<^verbatim>\<open>msg.note\<close> and \<^verbatim>\<open>msg.velocity\<close>
  for note messages, \<^verbatim>\<open>msg.tempo\<close> for \<^verbatim>\<open>set_tempo\<close>, \<^verbatim>\<open>msg.key\<close> for
  \<^verbatim>\<open>key_signature\<close>. Every other message type is \<open>OtherMsg\<close>.
\<close>

datatype msg =
    NoteOn int int int
  | NoteOff int int int
  | SetTempo int int
  | KeySignature int string
  | OtherMsg int

fun msg_time :: "msg \<Rightarrow> int" where
  "msg_time (NoteOn t n v) = t"
| "msg_time (NoteOff t n v) = t"
| "msg_time (SetTempo t u) = t"
| "msg_time (KeySignature t k) = t"
| "msg_time (OtherMsg t) = t"

text \<open>
  \<^verbatim>\<open>mido.MidiFile\<close>: \<^verbatim>\<open>mid.length\<close> is a property that raises for type-2 files,
  so it is an outcome; \<^verbatim>\<open>mid.tracks\<close> is a list of message lists.
\<close>

record midi_file =
  mf_length :: "py_exception + real"
  ticks_per_beat :: int
  tracks :: "msg list list"

text \<open>
  A file handed to \<^verbatim>\<open>analyze_chord_midi\<close>: its path, \<^verbatim>\<open>os.path.basename\<close> of
  the path, and the outcome of \<^verbatim>\<open>mido.MidiFile(midi_path)\<close>.
\<close>

record midi_source =
  ms_path :: string
  ms_name :: string
  ms_load :: "py_exception + midi_file"

subsection \<open>The analysis dictionary\<close>

record chord_event =
  ce_time :: int
  ce_notes :: "int list"
  ce_track :: nat

record tempo_change =
  tc_time :: int
  tc_bpm :: real

record key_signature_entry =
  ks_time :: int
  ks_key :: string

text \<open>
  The dictionary \<^verbatim>\<open>analysis\<close>. The keys of the dictionary literal are plain
  fields (\<^verbatim>\<open>"length"\<close> is \<open>length_sec\<close>); the three keys assigned after the loop
  are optional fields, \<open>None\<close> while the key is absent, so that
  \<^verbatim>\<open>analysis.get(key, default)\<close> keeps its default.
  \<^verbatim>\<open>"note_events"\<close> is created empty and never appended to.
\<close>

record analysis =
  filename :: string
  length_sec :: real
  an_ticks_per_beat :: int
  num_tracks :: nat
  chord_progression :: "chord_event list"
  key_signatures :: "key_signature_entry list"
  tempo_changes :: "tempo_change list"
  note_events :: "unit list"
  estimated_tempo :: "real option"
  estimated_key :: "string option"
  chord_count :: "int option"

text \<open>The dictionary returned by the \<^verbatim>\<open>except\<close> branch; \<^verbatim>\<open>"status"\<close> is
  always \<^verbatim>\<open>"error"\<close>.\<close>

record analysis_error =
  err_filename :: string
  err_error :: string
  err_status :: string

subsection \<open>analyze_chord_midi\<close>

text \<open>
  One iteration of \<^verbatim>\<open>for msg in track\<close> on the loop variables
  \<open>(analysis, current_time, active_notes)\<close>.
  \<open>bpm_of\<close> stands for \<^verbatim>\<open>round(mido.tempo2bpm(msg.tempo), 2)\<close>, a library
  computation on floats that raises (division by zero) for tempo 0.
\<close>

type_synonym loop_state = "analysis \<times> int \<times> int set"

fun process_msg ::
  "(int \<Rightarrow> py_exception + real) \<Rightarrow> nat \<Rightarrow> msg \<Rightarrow> loop_state \<Rightarrow> py_exception + loop_state"
where
  "process_msg bpm_of track_idx (NoteOn t n v) (a, current_time, active_notes) =
     (let current_time = current_time + t in
      if v > 0 then
        (let active_notes = insert n active_notes in
         if card active_notes \<ge> 3 then
           (let chord_notes = sorted_list_of_set active_notes in
            Inr (a\<lparr>chord_progression := chord_progression a @
                      [\<lparr>ce_time = current_time, ce_notes = chord_notes, ce_track = track_idx\<rparr>]\<rparr>,
                 current_time, active_notes))
         else Inr (a, current_time, active_notes))
      else if v = 0 then Inr (a, current_time, active_notes - {n})
      else Inr (a, current_time, active_notes))"
| "process_msg bpm_of track_idx (NoteOff t n v) (a, current_time, active_notes) =
     (let current_time = current_time + t in
      Inr (a, current_time, active_notes - {n}))"
| "process_msg bpm_of track_idx (SetTempo t u) (a, current_time, active_notes) =
     (let current_time = current_time + t in
      case bpm_of u of
        Inl e \<Rightarrow> Inl e
      | Inr bpm \<Rightarrow>
          Inr (a\<lparr>tempo_changes := tempo_changes a @ [\<lparr>tc_time = current_time, tc_bpm = bpm\<rparr>]\<rparr>,
               current_time, active_notes))"
| "process_msg bpm_of track_idx (KeySignature t k) (a, current_time, active_notes) =
     (let current_time = current_time + t in
      Inr (a\<lparr>key_signatures := key_signatures a @ [\<lparr>ks_time = current_time, ks_key = k\<rparr>]\<rparr>,
           current_time, active_notes))"
| "process_msg bpm_of track_idx (OtherMsg t) (a, current_time, active_notes) =
     (let current_time = current_time + t in
      Inr (a, current_time, active_notes))"

text \<open>The loop \<^verbatim>\<open>for msg in track\<close>; an exception leaves the loop at once.\<close>

fun msg_loop ::
  "(int \<Rightarrow> py_exception + real) \<Rightarrow> nat \<Rightarrow> msg list \<Rightarrow> loop_state \<Rightarrow> py_exception + loop_state"
where
  "msg_loop bpm_of track_idx [] st = Inr st"
| "msg_loop bpm_of track_idx (m # ms) st =
     (case process_msg bpm_of track_idx m st of
        Inl e \<Rightarrow> Inl e
      | Inr st' \<Rightarrow> msg_loop bpm_of track_idx ms st')"

text \<open>
  The loop \<^verbatim>\<open>for track_idx, track in enumerate(mid.tracks)\<close>, from index
  \<open>track_idx\<close> on: every track starts with \<^verbatim>\<open>current_time = 0\<close> and
  \<^verbatim>\<open>active_notes = set()\<close> and appends to the same \<^verbatim>\<open>analysis\<close>.
\<close>

fun track_loop ::
  "(int \<Rightarrow> py_exception + real) \<Rightarrow> nat \<Rightarrow> msg list list \<Rightarrow> analysis \<Rightarrow> py_exception + analysis"
where
  "track_loop bpm_of track_idx [] a = Inr a"
| "track_loop bpm_of track_idx (track # rest) a =
     (case msg_loop bpm_of track_idx track (a, 0, {}) of
        Inl e \<Rightarrow> Inl e
      | Inr (a', current_time, active_notes) \<Rightarrow> track_loop bpm_of (Suc track_idx) rest a')"

definition estimate_tempo :: "analysis \<Rightarrow> real" where
  "estimate_tempo a =
     (if tempo_changes a \<noteq> [] then tc_bpm (tempo_changes a ! 0) else 120)"

definition estimate_key :: "analysis \<Rightarrow> string" where
  "estimate_key a =
     (if key_signatures a \<noteq> [] then ks_key (key_signatures a ! 0) else ''C'')"

text \<open>The body of the \<^verbatim>\<open>try\<close> block.\<close>

definition analyze_chord_midi_body ::
  "(int \<Rightarrow> py_exception + real) \<Rightarrow> midi_source \<Rightarrow> py_exception + analysis"
where
  "analyze_chord_midi_body bpm_of src =
     (case ms_load src of
        Inl e \<Rightarrow> Inl e
      | Inr mid \<Rightarrow>
          (case mf_length mid of
             Inl e \<Rightarrow> Inl e
           | Inr len \<Rightarrow>
               (let a0 = \<lparr>filename = ms_name src, length_sec = len,
                          an_ticks_per_beat = ticks_per_beat mid,
                          num_tracks = length (tracks mid),
                          chord_progression = [], key_signatures = [], tempo_changes = [],
                          note_events = [],
                          estimated_tempo = None, estimated_key = None, chord_count = None\<rparr>
                in case track_loop bpm_of 0 (tracks mid) a0 of
                     Inl e \<Rightarrow> Inl e
                   | Inr a1 \<Rightarrow>
                       (let a2 = a1\<lparr>estimated_tempo := Some (estimate_tempo a1)\<rparr>;
                            a3 = a2\<lparr>estimated_key := Some (estimate_key a2)\<rparr>;
                            a4 = a3\<lparr>chord_count := Some (int (length (chord_progression a3)))\<rparr>
                        in Inr a4))))"

text \<open>
  \<^verbatim>\<open>analyze_chord_midi\<close> returns a dictionary on both paths: \<open>Inl\<close> is the one
  with the key \<^verbatim>\<open>"error"\<close>, \<open>Inr\<close> the analysis.
\<close>

definition analyze_chord_midi ::
  "(int \<Rightarrow> py_exception + real) \<Rightarrow> midi_source \<Rightarrow> analysis_error + analysis"
where
  "analyze_chord_midi bpm_of src =
     (case analyze_chord_midi_body bpm_of src of
        Inl (PyException e) \<Rightarrow>
          Inl \<lparr>err_filename = ms_name src, err_error = e, err_status = ''error''\<rparr>
      | Inr a \<Rightarrow> Inr a)"

subsection \<open>categorize_chord_set\<close>

definition categorize_chord_set :: "analysis \<Rightarrow> string" where
  "categorize_chord_set a =
     (let chord_count = (case chord_count a of Some c \<Rightarrow> c | None \<Rightarrow> 0);
          tempo = (case estimated_tempo a of Some t \<Rightarrow> t | None \<Rightarrow> 120);
          category = (if tempo < 80 then ''slow-progressions''
                      else if tempo > 140 then ''fast-progressions''
                      else ''medium-progressions'');
          subcategory = (if chord_count > 8 then ''complex''
                         else if chord_count > 4 then ''standard''
                         else ''simple'')
      in category @ ''/'' @ subcategory)"

subsection \<open>process_chord_sets\<close>

text \<open>
  The object: \<^verbatim>\<open>self.source_dir\<close>, \<^verbatim>\<open>self.target_dir\<close>; \<^verbatim>\<open>self.chord_sets_dir\<close>
  is \<^verbatim>\<open>target_dir / "chord-sets"\<close>. \<open>path_join\<close> is pathlib's \<^verbatim>\<open>/\<close> for a
  relative right operand.
\<close>

record processor =
  source_dir :: string
  target_dir :: string

definition path_join :: "string \<Rightarrow> string \<Rightarrow> string" where
  "path_join a b = a @ ''/'' @ b"

definition chord_sets_dir :: "processor \<Rightarrow> string" where
  "chord_sets_dir self = path_join (target_dir self) ''chord-sets''"

record chord_set_info =
  original_path :: string
  storage_path :: string
  category :: string
  analysis :: analysis

text \<open>The dictionary \<^verbatim>\<open>catalog\<close>; \<^verbatim>\<open>"categories"\<close> keeps its keys in
  insertion order.\<close>

record catalog =
  processed_at :: string
  total_files :: nat
  chord_sets :: "chord_set_info list"
  categories :: "(string \<times> chord_set_info list) list"

text \<open>
  The part of the file system the two operations touch: the directories made, the files
  copied (destination to source), and the JSON documents written, each held as the value
  it serialises. That \<^verbatim>\<open>json.load\<close> gives back what \<^verbatim>\<open>json.dump\<close> wrote is the
  json library's contract and is not re-derived here.
\<close>

record file_system =
  fs_dirs :: "string set"
  fs_copied :: "string \<rightharpoonup> string"
  fs_json :: "string \<rightharpoonup> catalog"

text \<open>
  What the outside world answers during one run: the working directory, the two glob
  results with each file's parse, the tempo conversion, and whether a directory creation,
  a copy or the catalog write raises.
\<close>

record environment =
  env_cwd :: string
  env_glob_mid :: "midi_source list"
  env_glob_midi :: "midi_source list"
  env_bpm_of :: "int \<Rightarrow> py_exception + real"
  env_mkdir_error :: "string \<Rightarrow> py_exception option"
  env_copy_error :: "string \<Rightarrow> string \<Rightarrow> py_exception option"
  env_write_error :: "string \<Rightarrow> py_exception option"

definition mkdir :: "environment \<Rightarrow> string \<Rightarrow> file_system \<Rightarrow> py_exception + file_system" where
  "mkdir env d fs =
     (case env_mkdir_error env d of
        Some e \<Rightarrow> Inl e
      | None \<Rightarrow> Inr (fs\<lparr>fs_dirs := insert d (fs_dirs fs)\<rparr>))"

definition category_names :: "string list" where
  "category_names =
     [''slow-progressions/simple'', ''slow-progressions/standard'', ''slow-progressions/complex'',
      ''medium-progressions/simple'', ''medium-progressions/standard'',
      ''medium-progressions/complex'',
      ''fast-progressions/simple'', ''fast-progressions/standard'', ''fast-progressions/complex'']"

text \<open>The loop \<^verbatim>\<open>for category in categories\<close>.\<close>

fun mkdir_loop ::
  "environment \<Rightarrow> processor \<Rightarrow> string list \<Rightarrow> file_system \<Rightarrow> py_exception + file_system"
where
  "mkdir_loop env self [] fs = Inr fs"
| "mkdir_loop env self (c # cs) fs =
     (case mkdir env (path_join (chord_sets_dir self) c) fs of
        Inl e \<Rightarrow> Inl e
      | Inr fs' \<Rightarrow> mkdir_loop env self cs fs')"

text \<open>The update of \<^verbatim>\<open>catalog["categories"]\<close>: create the key with an empty list
  when it is missing, then append.\<close>

definition add_to_category ::
  "string \<Rightarrow> chord_set_info \<Rightarrow> (string \<times> chord_set_info list) list
     \<Rightarrow> (string \<times> chord_set_info list) list"
where
  "add_to_category c info cats =
     (let cats = (if c \<notin> fst ` set cats then cats @ [(c, [])] else cats)
      in map (\<lambda>(k, l). if k = c then (k, l @ [info]) else (k, l)) cats)"

text \<open>
  The loop \<^verbatim>\<open>for midi_file in midi_files\<close> on
  \<open>(file system, catalog, processed_files)\<close>. An analysis with the key
  \<^verbatim>\<open>"error"\<close> is only printed.
\<close>

fun midi_file_loop ::
  "environment \<Rightarrow> processor \<Rightarrow> midi_source list
     \<Rightarrow> file_system \<times> catalog \<times> string list
     \<Rightarrow> py_exception + file_system \<times> catalog \<times> string list"
where
  "midi_file_loop env self [] st = Inr st"
| "midi_file_loop env self (midi_file # rest) (fs, cat, processed_files) =
     (case analyze_chord_midi (env_bpm_of env) midi_file of
        Inr an \<Rightarrow>
          (let c = categorize_chord_set an;
               target_path = path_join (path_join (chord_sets_dir self) c) (ms_name midi_file)
           in case env_copy_error env (ms_path midi_file) target_path of
                Some e \<Rightarrow> Inl e
              | None \<Rightarrow>
                  (let fs' = fs\<lparr>fs_copied := (fs_copied fs)(target_path \<mapsto> ms_path midi_file)\<rparr>;
                       chord_set_info = \<lparr>original_path = ms_path midi_file,
                                         storage_path = target_path,
                                         category = c, analysis = an\<rparr>;
                       cat' = cat\<lparr>chord_sets := chord_sets cat @ [chord_set_info],
                                  categories := add_to_category c chord_set_info (categories cat)\<rparr>
                   in midi_file_loop env self rest
                        (fs', cat', processed_files @ [ms_name midi_file])))
      | Inl err \<Rightarrow> midi_file_loop env self rest (fs, cat, processed_files))"

definition catalog_path :: "processor \<Rightarrow> string" where
  "catalog_path self = path_join (chord_sets_dir self) ''chord_sets_catalog.json''"

definition process_chord_sets ::
  "environment \<Rightarrow> processor \<Rightarrow> file_system \<Rightarrow> py_exception + catalog \<times> file_system"
where
  "process_chord_sets env self fs =
     (case mkdir env (chord_sets_dir self) fs of
        Inl e \<Rightarrow> Inl e
      | Inr fs1 \<Rightarrow>
          (case mkdir_loop env self category_names fs1 of
             Inl e \<Rightarrow> Inl e
           | Inr fs2 \<Rightarrow>
               (let midi_files = env_glob_mid env @ env_glob_midi env;
                    cat0 = \<lparr>processed_at = env_cwd env, total_files = length midi_files,
                            chord_sets = [], categories = []\<rparr>
                in case midi_file_loop env self midi_files (fs2, cat0, []) of
                     Inl e \<Rightarrow> Inl e
                   | Inr (fs3, cat, processed_files) \<Rightarrow>
                       (case env_write_error env (catalog_path self) of
                          Some e \<Rightarrow> Inl e
                        | None \<Rightarrow>
                            Inr (cat, fs3\<lparr>fs_json := (fs_json fs3)(catalog_path self \<mapsto> cat)\<rparr>)))))"

subsection \<open>get_chord_sets_by_category\<close>

text \<open>
  \<^verbatim>\<open>category\<close> and \<^verbatim>\<open>tempo_range\<close> default to \<^verbatim>\<open>None\<close>. \<^verbatim>\<open>if category:\<close>
  is false for \<^verbatim>\<open>None\<close> and for the empty string; \<^verbatim>\<open>if tempo_range:\<close> is true
  for every pair. \<^verbatim>\<open>category in s\<close> on strings is the contiguous-substring test
  \<open>sublist\<close>. The keys read with \<^verbatim>\<open>.get\<close> from the catalog and from a record
  (\<^verbatim>\<open>"chord_sets"\<close>, \<^verbatim>\<open>"category"\<close>, \<^verbatim>\<open>"analysis"\<close>) are plain fields here;
  \<^verbatim>\<open>"estimated_tempo"\<close> keeps its default 120.
\<close>

definition get_chord_sets_by_category ::
  "processor \<Rightarrow> file_system \<Rightarrow> string option \<Rightarrow> (real \<times> real) option \<Rightarrow> chord_set_info list"
where
  "get_chord_sets_by_category self fs cat_filter tempo_range =
     (case fs_json fs (catalog_path self) of
        None \<Rightarrow> []
      | Some cat \<Rightarrow>
          (let css = chord_sets cat;
               css = (case cat_filter of
                        None \<Rightarrow> css
                      | Some c \<Rightarrow>
                          if c \<noteq> [] then filter (\<lambda>cs. sublist c (category cs)) css else css);
               css = (case tempo_range of
                        None \<Rightarrow> css
                      | Some (min_tempo, max_tempo) \<Rightarrow>
                          filter (\<lambda>cs.
                             (let t = (case estimated_tempo (analysis cs) of
                                         Some t \<Rightarrow> t | None \<Rightarrow> 120)
                              in min_tempo \<le> t \<and> t \<le> max_tempo)) css)
           in css))"

section \<open>chord-processor.py: class ChordProcessor\<close>

subsection \<open>_is_chord_symbol\<close>

text \<open>
  The method names start with an underscore in the source. The list \<^verbatim>\<open>modifiers\<close>
  is assigned and never read. The function looks at the first two characters only and
  compares them with ASCII letters.
\<close>

definition chord_roots :: "char list" where
  "chord_roots = [CHR ''C'', CHR ''D'', CHR ''E'', CHR ''F'', CHR ''G'', CHR ''A'', CHR ''B'']"

definition is_chord_symbol :: "string \<Rightarrow> bool" where
  "is_chord_symbol text' =
     (if text' = [] \<or> length text' < 1 then False
      else if text' ! 0 \<in> set chord_roots then True
      else if length text' > 1 \<and> text' ! 0 \<in> set [CHR ''b'', CHR ''#''] \<and>
              text' ! 1 \<in> set chord_roots then True
      else False)"

subsection \<open>String methods used by _process_text_chords\<close>

text \<open>
  A \<open>char\<close> is read as the code point below 256 it numbers. \<open>is_space\<close> is
  \<^verbatim>\<open>str.isspace\<close> on those: tab, line feed, vertical tab, form feed, carriage
  return, the four separators 0x1C to 0x1F, space, 0x85 and 0xA0.
\<close>

definition is_space :: "char \<Rightarrow> bool" where
  "is_space c = (of_char c \<in> {9, 10, 11, 12, 13, 28, 29, 30, 31, 32, 133, 160 :: nat})"

text \<open>\<^verbatim>\<open>s.split(sep)\<close> for a one-character separator: never an empty list.\<close>

fun split_on :: "char \<Rightarrow> string \<Rightarrow> string list" where
  "split_on sep [] = [[]]"
| "split_on sep (c # cs) =
     (if c = sep then [] # split_on sep cs
      else (case split_on sep cs of
              w # ws \<Rightarrow> (c # w) # ws
            | [] \<Rightarrow> [[c]]))"

text \<open>\<^verbatim>\<open>s.strip()\<close>.\<close>

definition strip :: "string \<Rightarrow> string" where
  "strip s = rev (dropWhile is_space (rev (dropWhile is_space s)))"

text \<open>\<^verbatim>\<open>s.split()\<close>: the maximal runs of non-space characters; \<open>cur\<close> is the run
  being read.\<close>

fun split_ws_from :: "string \<Rightarrow> string \<Rightarrow> string list" where
  "split_ws_from cur [] = (if cur = [] then [] else [cur])"
| "split_ws_from cur (c # cs) =
     (if is_space c then (if cur = [] then split_ws_from [] cs else cur # split_ws_from [] cs)
      else split_ws_from (cur @ [c]) cs)"

definition split_ws :: "string \<Rightarrow> string list" where
  "split_ws s = split_ws_from [] s"

subsection \<open>The per-file records\<close>

record midi_record =
  mr_filename :: string
  mr_type :: string
  mr_chord_progression :: "string list"
  mr_tempo :: int
  mr_time_signature :: string

record text_record =
  tr_filename :: string
  tr_type :: string
  chord_progressions :: "string list list"
  raw_content :: string

record 'j json_record =
  jr_filename :: string
  jr_type :: string
  jr_data :: 'j

text \<open>
  \<^verbatim>\<open>prog_data\<close> is one of the three dictionaries, or \<^verbatim>\<open>None\<close>. The type \<open>'j\<close>
  is whatever \<^verbatim>\<open>json.load\<close> returns.
\<close>

datatype 'j prog_data = MidiProg midi_record | TextProg text_record | JsonProg "'j json_record"

text \<open>\<^verbatim>\<open>len(d)\<close> of such a dictionary: the number of its keys.\<close>

fun num_keys :: "'j prog_data \<Rightarrow> nat" where
  "num_keys (MidiProg r) = 5"
| "num_keys (TextProg r) = 4"
| "num_keys (JsonProg r) = 3"

text \<open>\<^verbatim>\<open>if prog_data:\<close> is false for \<^verbatim>\<open>None\<close> and for a dictionary without
  keys.\<close>

fun truthy :: "'j prog_data option \<Rightarrow> bool" where
  "truthy None = False"
| "truthy (Some d) = (num_keys d \<noteq> 0)"

text \<open>
  A path yielded by \<^verbatim>\<open>Path(directory).rglob("*")\<close>: \<^verbatim>\<open>file_path.name\<close>,
  \<^verbatim>\<open>file_path.suffix\<close>, \<^verbatim>\<open>file_path.is_file()\<close>, and what the library calls
  made on it answer: \<^verbatim>\<open>mido.MidiFile\<close>, the music21 pipeline from
  \<^verbatim>\<open>mid.play()\<close> to the list of \<^verbatim>\<open>pitchedCommonName\<close>, \<^verbatim>\<open>open(...).read()\<close>
  and \<^verbatim>\<open>json.load\<close>.
\<close>

record 'j dir_entry =
  de_name :: string
  de_suffix :: string
  de_is_file :: bool
  de_midi_load :: "py_exception + midi_file"
  de_chord_symbols :: "py_exception + string list"
  de_text :: "py_exception + string"
  de_json :: "py_exception + 'j"

subsection \<open>_extract_tempo and _process_midi_chords\<close>

text \<open>The inner loop of \<^verbatim>\<open>_extract_tempo\<close>: the tempo of the first
  \<^verbatim>\<open>set_tempo\<close> of a track.\<close>

fun first_set_tempo :: "msg list \<Rightarrow> int option" where
  "first_set_tempo [] = None"
| "first_set_tempo (SetTempo t u # ms) = Some u"
| "first_set_tempo (m # ms) = first_set_tempo ms"

text \<open>\<open>int_bpm_of\<close> stands for \<^verbatim>\<open>int(mido.tempo2bpm(msg.tempo))\<close>.\<close>

fun extract_tempo :: "(int \<Rightarrow> py_exception + int) \<Rightarrow> msg list list \<Rightarrow> py_exception + int" where
  "extract_tempo int_bpm_of [] = Inr 120"
| "extract_tempo int_bpm_of (track # rest) =
     (case first_set_tempo track of
        Some u \<Rightarrow> int_bpm_of u
      | None \<Rightarrow> extract_tempo int_bpm_of rest)"

definition process_midi_chords ::
  "(int \<Rightarrow> py_exception + int) \<Rightarrow> 'j dir_entry \<Rightarrow> 'j prog_data option"
where
  "process_midi_chords int_bpm_of file_path =
     (case de_midi_load file_path of
        Inl e \<Rightarrow> None
      | Inr mid \<Rightarrow>
          (case de_chord_symbols file_path of
             Inl e \<Rightarrow> None
           | Inr chord_symbols \<Rightarrow>
               (case extract_tempo int_bpm_of (tracks mid) of
                  Inl e \<Rightarrow> None
                | Inr tempo \<Rightarrow>
                    Some (MidiProg \<lparr>mr_filename = de_name file_path, mr_type = ''MIDI'',
                                    mr_chord_progression = chord_symbols, mr_tempo = tempo,
                                    mr_time_signature = ''4/4''\<rparr>))))"

subsection \<open>_process_text_chords\<close>

text \<open>The loop \<^verbatim>\<open>for word in words\<close> on \<^verbatim>\<open>potential_chords\<close>.\<close>

fun word_loop :: "string list \<Rightarrow> string list \<Rightarrow> string list" where
  "word_loop [] potential_chords = potential_chords"
| "word_loop (word # rest) potential_chords =
     word_loop rest (if is_chord_symbol word then potential_chords @ [word]
                     else potential_chords)"

text \<open>The loop \<^verbatim>\<open>for line in lines\<close> on \<^verbatim>\<open>chord_patterns\<close>.\<close>

fun line_loop :: "string list \<Rightarrow> string list list \<Rightarrow> string list list" where
  "line_loop [] chord_patterns = chord_patterns"
| "line_loop (line # rest) chord_patterns =
     (let words = split_ws (strip line);
          potential_chords = word_loop words []
      in line_loop rest (if potential_chords \<noteq> [] then chord_patterns @ [potential_chords]
                         else chord_patterns))"

definition process_text_chords :: "'j dir_entry \<Rightarrow> 'j prog_data option" where
  "process_text_chords file_path =
     (case de_text file_path of
        Inl e \<Rightarrow> None
      | Inr content \<Rightarrow>
          (let lines = split_on (CHR 0x0A) content;
               chord_patterns = line_loop lines []
           in Some (TextProg \<lparr>tr_filename = de_name file_path, tr_type = ''Text'',
                              chord_progressions = chord_patterns,
                              raw_content = take 500 content\<rparr>)))"

subsection \<open>_process_json_chords\<close>

definition process_json_chords :: "'j dir_entry \<Rightarrow> 'j prog_data option" where
  "process_json_chords file_path =
     (case de_json file_path of
        Inl e \<Rightarrow> None
      | Inr data \<Rightarrow>
          Some (JsonProg \<lparr>jr_filename = de_name file_path, jr_type = ''JSON'', jr_data = data\<rparr>))"

subsection \<open>_analyze_chord_files\<close>

record metadata =
  file_count :: int
  formats :: "string list"

record 'j chord_data =
  progressions :: "'j prog_data list"
  cd_metadata :: metadata

text \<open>\<^verbatim>\<open>s.lower()\<close> on the letters A to Z; the suffixes compared against are
  ASCII.\<close>

definition lower :: "string \<Rightarrow> string" where
  "lower s = map (\<lambda>c. if 65 \<le> (of_char c :: nat) \<and> (of_char c :: nat) \<le> 90
                        then char_of (of_char c + 32 :: nat) else c) s"

text \<open>The loop \<^verbatim>\<open>for file_path in Path(directory).rglob("*")\<close> on
  \<open>(progressions, metadata)\<close>.\<close>

fun rglob_loop ::
  "(int \<Rightarrow> py_exception + int) \<Rightarrow> 'j dir_entry list \<Rightarrow> 'j prog_data list \<times> metadata
     \<Rightarrow> 'j prog_data list \<times> metadata"
where
  "rglob_loop int_bpm_of [] st = st"
| "rglob_loop int_bpm_of (file_path # rest) (progs, md) =
     (if de_is_file file_path then
        (let md = md\<lparr>file_count := file_count md + 1\<rparr> in
         if lower (de_suffix file_path) \<in> set [''.mid'', ''.midi''] then
           (let prog_data = process_midi_chords int_bpm_of file_path in
            if truthy prog_data
            then rglob_loop int_bpm_of rest
                   (progs @ [the prog_data], md\<lparr>formats := formats md @ [''MIDI'']\<rparr>)
            else rglob_loop int_bpm_of rest (progs, md))
         else if lower (de_suffix file_path) \<in> set [''.txt'', ''.chord''] then
           (let prog_data = process_text_chords file_path in
            if truthy prog_data
            then rglob_loop int_bpm_of rest
                   (progs @ [the prog_data], md\<lparr>formats := formats md @ [''Text'']\<rparr>)
            else rglob_loop int_bpm_of rest (progs, md))
         else if lower (de_suffix file_path) = ''.json'' then
           (let prog_data = process_json_chords file_path in
            if truthy prog_data
            then rglob_loop int_bpm_of rest
                   (progs @ [the prog_data], md\<lparr>formats := formats md @ [''JSON'']\<rparr>)
            else rglob_loop int_bpm_of rest (progs, md))
         else rglob_loop int_bpm_of rest (progs, md))
      else rglob_loop int_bpm_of rest (progs, md))"

definition analyze_chord_files ::
  "(int \<Rightarrow> py_exception + int) \<Rightarrow> 'j dir_entry list \<Rightarrow> 'j chord_data"
where
  "analyze_chord_files int_bpm_of directory =
     (case rglob_loop int_bpm_of directory ([], \<lparr>file_count = 0, formats = []\<rparr>) of
        (progs, md) \<Rightarrow> \<lparr>progressions = progs, cd_metadata = md\<rparr>)"

subsection \<open>process_chord_zip\<close>

text \<open>
  What the outside world answers during one call: whether opening the archive, making
  the temporary directory, extracting, writing the output file, or leaving the two
  \<^verbatim>\<open>with\<close> blocks raises; the extracted tree; \<^verbatim>\<open>Path(zip_path).stem\<close>.
\<close>

record 'j zip_env =
  ze_open_error :: "py_exception option"
  ze_tempdir_error :: "py_exception option"
  ze_extract_error :: "py_exception option"
  ze_listing :: "'j dir_entry list"
  ze_stem :: string
  ze_write_error :: "py_exception option"
  ze_cleanup_error :: "py_exception option"
  ze_int_bpm_of :: "int \<Rightarrow> py_exception + int"

text \<open>The returned dictionary: the one with \<^verbatim>\<open>"success": True\<close> and its four
  other keys, or the one with \<^verbatim>\<open>"success": False\<close> and \<^verbatim>\<open>"error"\<close>.\<close>

datatype zip_result =
    ZipSuccess string string int metadata
  | ZipFailure string

text \<open>\<^verbatim>\<open>str(Path("./storage/midi/chord-sets"))\<close>.\<close>

definition zip_chord_sets_dir :: string where
  "zip_chord_sets_dir = ''storage/midi/chord-sets''"

text \<open>
  Leaving the \<^verbatim>\<open>with\<close> blocks, by \<^verbatim>\<open>return\<close> or by an exception: when the
  clean-up raises, its exception replaces the pending outcome.
\<close>

definition leave_with :: "'j zip_env \<Rightarrow> py_exception + zip_result \<Rightarrow> py_exception + zip_result" where
  "leave_with env outcome =
     (case ze_cleanup_error env of
        Some e \<Rightarrow> Inl e
      | None \<Rightarrow> outcome)"

text \<open>
  The body of the \<^verbatim>\<open>try\<close> block, on the store of written output files. A file
  written before a later step raises stays written.
\<close>

definition process_chord_zip_body ::
  "'j zip_env \<Rightarrow> (string \<rightharpoonup> 'j chord_data) \<Rightarrow> (py_exception + zip_result) \<times> (string \<rightharpoonup> 'j chord_data)"
where
  "process_chord_zip_body env store =
     (case ze_open_error env of
        Some e \<Rightarrow> (Inl e, store)
      | None \<Rightarrow>
          (case ze_tempdir_error env of
             Some e \<Rightarrow> (Inl e, store)
           | None \<Rightarrow>
               (case ze_extract_error env of
                  Some e \<Rightarrow> (leave_with env (Inl e), store)
                | None \<Rightarrow>
                    (let chord_data = analyze_chord_files (ze_int_bpm_of env) (ze_listing env);
                         chord_set_name = ze_stem env;
                         output_path = path_join zip_chord_sets_dir
                                         (chord_set_name @ ''_processed.json'')
                     in case ze_write_error env of
                          Some e \<Rightarrow> (leave_with env (Inl e), store)
                        | None \<Rightarrow>
                            (leave_with env
                               (Inr (ZipSuccess chord_set_name output_path
                                       (int (length (progressions chord_data)))
                                       (cd_metadata chord_data))),
                             store(output_path \<mapsto> chord_data))))))"

text \<open>The whole method: \<^verbatim>\<open>except Exception as e\<close> turns the exception into the
  failure dictionary with \<^verbatim>\<open>str(e)\<close>.\<close>

definition process_chord_zip ::
  "'j zip_env \<Rightarrow> (string \<rightharpoonup> 'j chord_data) \<Rightarrow> (py_exception + zip_result) \<times> (string \<rightharpoonup> 'j chord_data)"
where
  "process_chord_zip env store =
     (case process_chord_zip_body env store of
        (Inl (PyException e), store') \<Rightarrow> (Inr (ZipFailure e), store')
      | (Inr r, store') \<Rightarrow> (Inr r, store'))"

section \<open>The specification's notions\<close>

text \<open>
  The definitions of this section follow the wording of the specification, not the code;
  the theorems compare them with the code.
\<close>

text \<open>A note-on with velocity above 0 for pitch \<open>p\<close>.\<close>

definition spec_adds :: "int \<Rightarrow> msg \<Rightarrow> bool" where
  "spec_adds p m = (case m of NoteOn d n v \<Rightarrow> n = p \<and> 0 < v | _ \<Rightarrow> False)"

text \<open>A note-off, or a note-on with velocity 0, for pitch \<open>p\<close>.\<close>

definition spec_removes :: "int \<Rightarrow> msg \<Rightarrow> bool" where
  "spec_removes p m =
     (case m of NoteOff d n v \<Rightarrow> n = p | NoteOn d n v \<Rightarrow> n = p \<and> v = 0 | _ \<Rightarrow> False)"

text \<open>The two buckets of the category label.\<close>

definition spec_tempo_bucket :: "real \<Rightarrow> string" where
  "spec_tempo_bucket t =
     (if t < 80 then ''slow-progressions''
      else if t > 140 then ''fast-progressions''
      else ''medium-progressions'')"

definition spec_count_bucket :: "int \<Rightarrow> string" where
  "spec_count_bucket c =
     (if c > 8 then ''complex'' else if c > 4 then ''standard'' else ''simple'')"

section \<open>Example inputs\<close>

definition ex_bpm_of :: "int \<Rightarrow> py_exception + real" where
  "ex_bpm_of u =
     (if u = 0 then Inl (PyException ''float division by zero'')
      else Inr (60000000 / real_of_int u))"

definition ex_analysis0 :: analysis where
  "ex_analysis0 =
     \<lparr>filename = ''a.mid'', length_sec = 2, an_ticks_per_beat = 480, num_tracks = 1,
      chord_progression = [], key_signatures = [], tempo_changes = [], note_events = [],
      estimated_tempo = None, estimated_key = None, chord_count = None\<rparr>"

definition ex_track :: "msg list" where
  "ex_track =
     [NoteOn 0 67 100, NoteOn 10 60 100, NoteOn 5 64 100, NoteOff 20 60 0,
      NoteOn 0 72 90, NoteOn 3 64 0, NoteOn 2 64 80]"

definition ex_midi_source :: midi_source where
  "ex_midi_source =
     \<lparr>ms_path = ''attached_assets/a.mid'', ms_name = ''a.mid'',
      ms_load = Inr \<lparr>mf_length = Inr 2, ticks_per_beat = 480,
                     tracks = [[SetTempo 0 500000, KeySignature 0 ''Am''], ex_track]\<rparr>\<rparr>"

definition ex_bad_source :: midi_source where
  "ex_bad_source =
     \<lparr>ms_path = ''attached_assets/b.midi'', ms_name = ''b.midi'',
      ms_load = Inl (PyException ''MThd not found'')\<rparr>"

definition ex_processor :: processor where
  "ex_processor = \<lparr>source_dir = ''attached_assets'', target_dir = ''storage/midi/templates''\<rparr>"

definition ex_environment :: environment where
  "ex_environment =
     \<lparr>env_cwd = ''/home/app'', env_glob_mid = [ex_midi_source], env_glob_midi = [ex_bad_source],
      env_bpm_of = ex_bpm_of, env_mkdir_error = (\<lambda>d. None),
      env_copy_error = (\<lambda>s d. None), env_write_error = (\<lambda>p. None)\<rparr>"

definition ex_file_system :: file_system where
  "ex_file_system = \<lparr>fs_dirs = {}, fs_copied = Map.empty, fs_json = Map.empty\<rparr>"

text \<open>A catalog file with three records, at 79.5, 120 and 140 bpm.\<close>

definition ex_info :: "string \<Rightarrow> real \<Rightarrow> int \<Rightarrow> chord_set_info" where
  "ex_info name t c =
     (let an = ex_analysis0\<lparr>filename := name, estimated_tempo := Some t,
                            estimated_key := Some ''C'', chord_count := Some c\<rparr>;
          label = categorize_chord_set an
      in \<lparr>original_path = ''attached_assets/'' @ name,
          storage_path = ''storage/midi/templates/chord-sets/'' @ label @ ''/'' @ name,
          category = label, analysis = an\<rparr>)"

definition ex_catalog :: catalog where
  "ex_catalog =
     \<lparr>processed_at = ''/home/app'', total_files = 3,
      chord_sets = [ex_info ''s.mid'' (159 / 2) 2, ex_info ''m.mid'' 120 5, ex_info ''n.mid'' 140 9],
      categories =
        [(''slow-progressions/simple'', [ex_info ''s.mid'' (159 / 2) 2]),
         (''medium-progressions/standard'', [ex_info ''m.mid'' 120 5]),
         (''medium-progressions/complex'', [ex_info ''n.mid'' 140 9])]\<rparr>"

definition ex_catalog_fs :: file_system where
  "ex_catalog_fs =
     \<lparr>fs_dirs = {}, fs_copied = Map.empty,
      fs_json = [catalog_path ex_processor \<mapsto> ex_catalog]\<rparr>"

text \<open>A text file without a chord token, and archives around it.\<close>

definition ex_text_entry :: "unit dir_entry" where
  "ex_text_entry =
     \<lparr>de_name = ''notes.TXT'', de_suffix = ''.TXT'', de_is_file = True,
      de_midi_load = Inl (PyException ''not a MIDI file''),
      de_chord_symbols = Inl (PyException ''not a MIDI file''),
      de_text = Inr (''hello world'' @ [CHR 0x0A] @ ''  x y  z '' @ [CHR 0x0A]),
      de_json = Inl (PyException ''not JSON'')\<rparr>"

definition ex_chord_entry :: "unit dir_entry" where
  "ex_chord_entry =
     \<lparr>de_name = ''song.chord'', de_suffix = ''.chord'', de_is_file = True,
      de_midi_load = Inl (PyException ''not a MIDI file''),
      de_chord_symbols = Inl (PyException ''not a MIDI file''),
      de_text = Inr (''C Am F G'' @ [CHR 0x0A] @ ''play it slowly''),
      de_json = Inl (PyException ''not JSON'')\<rparr>"

definition ex_int_bpm_of :: "int \<Rightarrow> py_exception + int" where
  "ex_int_bpm_of u =
     (if u = 0 then Inl (PyException ''float division by zero'') else Inr (60000000 div u))"

definition ex_zip_env :: "unit zip_env" where
  "ex_zip_env =
     \<lparr>ze_open_error = None, ze_tempdir_error = None, ze_extract_error = None,
      ze_listing = [ex_chord_entry, ex_text_entry], ze_stem = ''set1'',
      ze_write_error = None, ze_cleanup_error = None, ze_int_bpm_of = ex_int_bpm_of\<rparr>"

definition ex_zip_env_bad :: "unit zip_env" where
  "ex_zip_env_bad = ex_zip_env\<lparr>ze_open_error := Some (PyException ''File is not a zip file'')\<rparr>"

section \<open>Properties of the chord detector\<close>

subsection \<open>The message loop, step by step\<close>

lemma msg_loop_append:
  "msg_loop bpm_of i (xs @ ys) st =
     (case msg_loop bpm_of i xs st of Inl e \<Rightarrow> Inl e | Inr st' \<Rightarrow> msg_loop bpm_of i ys st')"
  by (induction xs arbitrary: st) (auto split: sum.splits)

lemma msg_loop_snoc:
  "msg_loop bpm_of i (xs @ [m]) st =
     (case msg_loop bpm_of i xs st of Inl e \<Rightarrow> Inl e | Inr st' \<Rightarrow> process_msg bpm_of i m st')"
  by (simp add: msg_loop_append split: sum.splits)

lemma process_msg_finite:
  "process_msg bpm_of i m (a, t, act) = Inr (a', t', act') \<Longrightarrow> finite act \<Longrightarrow> finite act'"
  by (cases m) (auto simp: Let_def split: if_splits sum.splits)

lemma msg_loop_finite:
  "msg_loop bpm_of i ms (a, t, act) = Inr (a', t', act') \<Longrightarrow> finite act \<Longrightarrow> finite act'"
proof (induction ms arbitrary: a t act)
  case Nil
  then show ?case by simp
next
  case (Cons m ms)
  then show ?case
    by (auto split: sum.splits dest: process_msg_finite)
qed

lemma process_msg_active:
  "process_msg bpm_of i m (a, t, act) = Inr (a', t', act') \<Longrightarrow>
     (p \<in> act' \<longleftrightarrow> spec_adds p m \<or> (p \<in> act \<and> \<not> spec_removes p m))"
  by (cases m) (auto simp: Let_def spec_adds_def spec_removes_def split: if_splits sum.splits)

lemma process_msg_chords:
  "process_msg bpm_of i m (a, t, act) = Inr (a', t', act') \<Longrightarrow>
     (case m of
        NoteOn d n v \<Rightarrow>
          if 0 < v \<and> 3 \<le> card (insert n act)
          then chord_progression a' = chord_progression a @
                 [\<lparr>ce_time = t + d, ce_notes = sorted_list_of_set (insert n act), ce_track = i\<rparr>]
          else chord_progression a' = chord_progression a
      | _ \<Rightarrow> chord_progression a' = chord_progression a)"
  by (cases m) (auto simp: Let_def split: if_splits sum.splits)

text \<open>
  C1. Take any run of the message loop of one track that gets as far as a message \<open>m\<close>.
  The chord progression after \<open>m\<close> is the one before it with exactly one Chord Event
  appended when \<open>m\<close> is a note-on with velocity above 0 and the active set with the
  pitch of \<open>m\<close> inserted has at least 3 members, and is unchanged otherwise: so nothing is
  appended on a note-off or on a note-on with velocity 0. The appended event carries the
  current time, the sorted active pitches and the track index. When the set before \<open>m\<close>
  already has 3 members, every such note-on appends one more event, also for a pitch
  that is already in the set.
\<close>

theorem chord_event_emitted_iff:
  assumes "msg_loop bpm_of idx (pre @ [m]) (a0, 0, {}) = Inr (a', t', act')"
  shows "\<exists>a t act. msg_loop bpm_of idx pre (a0, 0, {}) = Inr (a, t, act) \<and> finite act \<and>
      (case m of
         NoteOn d n v \<Rightarrow>
           if 0 < v \<and> 3 \<le> card (insert n act)
           then chord_progression a' = chord_progression a @
                  [\<lparr>ce_time = t + d, ce_notes = sorted_list_of_set (insert n act),
                    ce_track = idx\<rparr>]
           else chord_progression a' = chord_progression a
       | _ \<Rightarrow> chord_progression a' = chord_progression a) \<and>
      (\<forall>d n v. m = NoteOn d n v \<and> 0 < v \<and> 3 \<le> card act \<longrightarrow>
          length (chord_progression a') = Suc (length (chord_progression a)))"
proof -
  from assms obtain st where pre: "msg_loop bpm_of idx pre (a0, 0, {}) = Inr st"
    and step: "process_msg bpm_of idx m st = Inr (a', t', act')"
    by (auto simp: msg_loop_snoc split: sum.splits)
  obtain a t act where st: "st = (a, t, act)" by (cases st) auto
  have fin: "finite act" using msg_loop_finite[OF pre[unfolded st]] by simp
  have ch: "(case m of
         NoteOn d n v \<Rightarrow>
           if 0 < v \<and> 3 \<le> card (insert n act)
           then chord_progression a' = chord_progression a @
                  [\<lparr>ce_time = t + d, ce_notes = sorted_list_of_set (insert n act),
                    ce_track = idx\<rparr>]
           else chord_progression a' = chord_progression a
       | _ \<Rightarrow> chord_progression a' = chord_progression a)"
    using process_msg_chords[OF step[unfolded st]] .
  have dup: "length (chord_progression a') = Suc (length (chord_progression a))"
    if "m = NoteOn d n v \<and> 0 < v \<and> 3 \<le> card act" for d n v
  proof -
    have "card act \<le> card (insert n act)" using fin by (simp add: card_insert_le)
    with that have "3 \<le> card (insert n act)" by linarith
    with that ch show ?thesis by simp
  qed
  show ?thesis using pre st fin ch dup by blast
qed

text \<open>
  The example track up to its seventh message: the sixth message (a note-on with
  velocity 0) leaves the two events, the seventh (pitch 64 again, three pitches active
  with it) appends a third event with the same notes as the second.
\<close>

theorem chord_event_emitted_iff_witness:
  "msg_loop ex_bpm_of 1 (take 6 ex_track @ [NoteOn 2 64 80]) (ex_analysis0, 0, {}) =
     Inr (ex_analysis0\<lparr>chord_progression :=
            [\<lparr>ce_time = 15, ce_notes = [60, 64, 67], ce_track = 1\<rparr>,
             \<lparr>ce_time = 35, ce_notes = [64, 67, 72], ce_track = 1\<rparr>,
             \<lparr>ce_time = 40, ce_notes = [64, 67, 72], ce_track = 1\<rparr>]\<rparr>, 40, {64, 67, 72}) \<and>
   (\<exists>a t act. msg_loop ex_bpm_of 1 (take 6 ex_track) (ex_analysis0, 0, {}) = Inr (a, t, act) \<and>
      length (chord_progression a) = 2 \<and> act = {67, 72} \<and> t = 38)"
proof -
  have run: "msg_loop ex_bpm_of 1 (take 6 ex_track @ [NoteOn 2 64 80]) (ex_analysis0, 0, {}) =
     Inr (ex_analysis0\<lparr>chord_progression :=
            [\<lparr>ce_time = 15, ce_notes = [60, 64, 67], ce_track = 1\<rparr>,
             \<lparr>ce_time = 35, ce_notes = [64, 67, 72], ce_track = 1\<rparr>,
             \<lparr>ce_time = 40, ce_notes = [64, 67, 72], ce_track = 1\<rparr>]\<rparr>, 40, {64, 67, 72})"
    by (simp add: ex_track_def ex_analysis0_def insert_commute)
  have pre: "msg_loop ex_bpm_of 1 (take 6 ex_track) (ex_analysis0, 0, {}) =
     Inr (ex_analysis0\<lparr>chord_progression :=
            [\<lparr>ce_time = 15, ce_notes = [60, 64, 67], ce_track = 1\<rparr>,
             \<lparr>ce_time = 35, ce_notes = [64, 67, 72], ce_track = 1\<rparr>]\<rparr>, 38, {67, 72})"
    by (simp add: ex_track_def ex_analysis0_def insert_commute)
  from chord_event_emitted_iff[OF run] pre run show ?thesis
    by (simp add: ex_analysis0_def)
qed

text \<open>
  C2. After the message loop of one track, started with the empty active set, a pitch is
  in the active set exactly when the sequence has a note-on with velocity above 0 for
  it that no later note-off or velocity-0 note-on for the same pitch follows. A removal
  of a pitch that is not in the set changes nothing.
\<close>

theorem active_notes_unmatched_trailing:
  assumes "msg_loop bpm_of idx msgs (a0, 0, {}) = Inr (a, t, act)"
  shows "(p \<in> act \<longleftrightarrow>
     (\<exists>i<length msgs. spec_adds p (msgs ! i) \<and>
        (\<forall>j. i < j \<and> j < length msgs \<longrightarrow> \<not> spec_removes p (msgs ! j)))) \<and>
     (\<forall>m. spec_removes p m \<and> p \<notin> act \<longrightarrow>
        msg_loop bpm_of idx (msgs @ [m]) (a0, 0, {}) = Inr (a, t + msg_time m, act))"
proof
  show "p \<in> act \<longleftrightarrow>
     (\<exists>i<length msgs. spec_adds p (msgs ! i) \<and>
        (\<forall>j. i < j \<and> j < length msgs \<longrightarrow> \<not> spec_removes p (msgs ! j)))"
    using assms
  proof (induction msgs arbitrary: a t act rule: rev_induct)
    case Nil
    then show ?case by simp
  next
    case (snoc m pre)
    from snoc.prems obtain a1 t1 act1 where
      pre: "msg_loop bpm_of idx pre (a0, 0, {}) = Inr (a1, t1, act1)" and
      step: "process_msg bpm_of idx m (a1, t1, act1) = Inr (a, t, act)"
      by (auto simp: msg_loop_snoc split: sum.splits)
    note IH = snoc.IH[OF pre]
    have mem: "p \<in> act \<longleftrightarrow> spec_adds p m \<or> (p \<in> act1 \<and> \<not> spec_removes p m)"
      using process_msg_active[OF step] .
    show ?case
    proof
      assume "p \<in> act"
      with mem consider "spec_adds p m" | "p \<in> act1" "\<not> spec_removes p m" by blast
      then show "\<exists>i<length (pre @ [m]). spec_adds p ((pre @ [m]) ! i) \<and>
          (\<forall>j. i < j \<and> j < length (pre @ [m]) \<longrightarrow> \<not> spec_removes p ((pre @ [m]) ! j))"
      proof cases
        case 1
        then show ?thesis by (intro exI[of _ "length pre"]) auto
      next
        case 2
        with IH obtain i where i: "i < length pre" "spec_adds p (pre ! i)"
          "\<forall>j. i < j \<and> j < length pre \<longrightarrow> \<not> spec_removes p (pre ! j)" by blast
        show ?thesis
        proof (intro exI[of _ i] conjI allI impI)
          show "i < length (pre @ [m])" using i by simp
          show "spec_adds p ((pre @ [m]) ! i)" using i by (simp add: nth_append)
          fix j assume "i < j \<and> j < length (pre @ [m])"
          then show "\<not> spec_removes p ((pre @ [m]) ! j)"
            using i(3) 2(2) by (cases "j < length pre") (auto simp: nth_append less_Suc_eq)
        qed
      qed
    next
      assume "\<exists>i<length (pre @ [m]). spec_adds p ((pre @ [m]) ! i) \<and>
          (\<forall>j. i < j \<and> j < length (pre @ [m]) \<longrightarrow> \<not> spec_removes p ((pre @ [m]) ! j))"
      then obtain i where i: "i < length (pre @ [m])" "spec_adds p ((pre @ [m]) ! i)"
        "\<forall>j. i < j \<and> j < length (pre @ [m]) \<longrightarrow> \<not> spec_removes p ((pre @ [m]) ! j)"
        by blast
      show "p \<in> act"
      proof (cases "i < length pre")
        case True
        have a: "spec_adds p (pre ! i)" using i(2) True by (simp add: nth_append)
        have b: "\<not> spec_removes p (pre ! j)" if "i < j \<and> j < length pre" for j
          using i(3)[rule_format, of j] that by (simp add: nth_append)
        have c: "\<not> spec_removes p m"
          using i(3)[rule_format, of "length pre"] True by simp
        from a b True IH have "p \<in> act1" by blast
        with c mem show ?thesis by blast
      next
        case False
        with i(1) have "i = length pre" by simp
        with i(2) have "spec_adds p m" by simp
        with mem show ?thesis by blast
      qed
    qed
  qed
next
  show "\<forall>m. spec_removes p m \<and> p \<notin> act \<longrightarrow>
        msg_loop bpm_of idx (msgs @ [m]) (a0, 0, {}) = Inr (a, t + msg_time m, act)"
  proof (intro allI impI)
    fix m assume m: "spec_removes p m \<and> p \<notin> act"
    then have "process_msg bpm_of idx m (a, t, act) = Inr (a, t + msg_time m, act)"
      by (cases m) (auto simp: spec_removes_def Let_def)
    then show "msg_loop bpm_of idx (msgs @ [m]) (a0, 0, {}) = Inr (a, t + msg_time m, act)"
      using assms by (simp add: msg_loop_snoc)
  qed
qed

text \<open>
  The example track: 67 and 72 are sounding at the end with 64, which was removed by a
  velocity-0 note-on and played again; 60 was removed by its note-off; a further
  note-off for 60 changes nothing.
\<close>

theorem active_notes_unmatched_trailing_witness:
  "msg_loop ex_bpm_of 1 ex_track (ex_analysis0, 0, {}) =
     Inr (ex_analysis0\<lparr>chord_progression :=
            [\<lparr>ce_time = 15, ce_notes = [60, 64, 67], ce_track = 1\<rparr>,
             \<lparr>ce_time = 35, ce_notes = [64, 67, 72], ce_track = 1\<rparr>,
             \<lparr>ce_time = 40, ce_notes = [64, 67, 72], ce_track = 1\<rparr>]\<rparr>, 40, {64, 67, 72}) \<and>
   \<not> (\<exists>i<length ex_track. spec_adds 60 (ex_track ! i) \<and>
        (\<forall>j. i < j \<and> j < length ex_track \<longrightarrow> \<not> spec_removes 60 (ex_track ! j))) \<and>
   (\<exists>i<length ex_track. spec_adds 64 (ex_track ! i) \<and>
        (\<forall>j. i < j \<and> j < length ex_track \<longrightarrow> \<not> spec_removes 64 (ex_track ! j))) \<and>
   msg_loop ex_bpm_of 1 (ex_track @ [NoteOff 7 60 0]) (ex_analysis0, 0, {}) =
     Inr (ex_analysis0\<lparr>chord_progression :=
            [\<lparr>ce_time = 15, ce_notes = [60, 64, 67], ce_track = 1\<rparr>,
             \<lparr>ce_time = 35, ce_notes = [64, 67, 72], ce_track = 1\<rparr>,
             \<lparr>ce_time = 40, ce_notes = [64, 67, 72], ce_track = 1\<rparr>]\<rparr>, 47, {64, 67, 72})"
proof -
  have run: "msg_loop ex_bpm_of 1 ex_track (ex_analysis0, 0, {}) =
     Inr (ex_analysis0\<lparr>chord_progression :=
            [\<lparr>ce_time = 15, ce_notes = [60, 64, 67], ce_track = 1\<rparr>,
             \<lparr>ce_time = 35, ce_notes = [64, 67, 72], ce_track = 1\<rparr>,
             \<lparr>ce_time = 40, ce_notes = [64, 67, 72], ce_track = 1\<rparr>]\<rparr>, 40, {64, 67, 72})"
    by (simp add: ex_track_def ex_analysis0_def insert_commute)
  have rem: "spec_removes 60 (NoteOff 7 60 0)" by (simp add: spec_removes_def)
  from active_notes_unmatched_trailing[OF run, of 60] active_notes_unmatched_trailing[OF run, of 64]
    rem run
  show ?thesis by simp
qed

subsection \<open>The notes of a Chord Event\<close>

lemma sorted_list_of_set_chord:
  "finite A \<Longrightarrow> 3 \<le> card A \<Longrightarrow>
     sorted_wrt (<) (sorted_list_of_set A) \<and> distinct (sorted_list_of_set A) \<and>
     3 \<le> length (sorted_list_of_set A)"
  by simp

lemma process_msg_notes_ok:
  assumes step: "process_msg bpm_of i m (a, t, act) = Inr (a', t', act')" and fin: "finite act"
    and ok: "\<forall>e \<in> set (chord_progression a).
           sorted_wrt (<) (ce_notes e) \<and> distinct (ce_notes e) \<and> 3 \<le> length (ce_notes e)"
  shows "\<forall>e \<in> set (chord_progression a').
           sorted_wrt (<) (ce_notes e) \<and> distinct (ce_notes e) \<and> 3 \<le> length (ce_notes e)"
proof (cases "\<exists>d n v. m = NoteOn d n v \<and> 0 < v \<and> 3 \<le> card (insert n act)")
  case True
  then obtain d n v where m: "m = NoteOn d n v" "0 < v" "3 \<le> card (insert n act)" by blast
  have "chord_progression a' = chord_progression a @
      [\<lparr>ce_time = t + d, ce_notes = sorted_list_of_set (insert n act), ce_track = i\<rparr>]"
    using process_msg_chords[OF step] m by simp
  moreover have "sorted_wrt (<) (sorted_list_of_set (insert n act)) \<and>
      distinct (sorted_list_of_set (insert n act)) \<and>
      3 \<le> length (sorted_list_of_set (insert n act))"
    using sorted_list_of_set_chord[of "insert n act"] fin m(3) by blast
  ultimately show ?thesis using ok by auto
next
  case False
  have "chord_progression a' = chord_progression a"
    using process_msg_chords[OF step] False by (cases m) (auto split: if_splits)
  then show ?thesis using ok by simp
qed

lemma msg_loop_notes_ok:
  assumes "msg_loop bpm_of i ms (a, t, act) = Inr (a', t', act')" and "finite act"
    and "\<forall>e \<in> set (chord_progression a).
           sorted_wrt (<) (ce_notes e) \<and> distinct (ce_notes e) \<and> 3 \<le> length (ce_notes e)"
  shows "\<forall>e \<in> set (chord_progression a').
           sorted_wrt (<) (ce_notes e) \<and> distinct (ce_notes e) \<and> 3 \<le> length (ce_notes e)"
  using assms
proof (induction ms arbitrary: a t act)
  case Nil
  then show ?case by simp
next
  case (Cons m ms)
  from Cons.prems(1) obtain a1 t1 act1 where
    step: "process_msg bpm_of i m (a, t, act) = Inr (a1, t1, act1)" and
    rest: "msg_loop bpm_of i ms (a1, t1, act1) = Inr (a', t', act')"
    by (auto split: sum.splits)
  have "finite act1" using process_msg_finite[OF step Cons.prems(2)] .
  moreover have "\<forall>e \<in> set (chord_progression a1).
       sorted_wrt (<) (ce_notes e) \<and> distinct (ce_notes e) \<and> 3 \<le> length (ce_notes e)"
    using process_msg_notes_ok[OF step Cons.prems(2) Cons.prems(3)] .
  ultimately show ?case using Cons.IH[OF rest] by blast
qed

lemma track_loop_notes_ok:
  assumes "track_loop bpm_of i ts a = Inr a'"
    and "\<forall>e \<in> set (chord_progression a).
           sorted_wrt (<) (ce_notes e) \<and> distinct (ce_notes e) \<and> 3 \<le> length (ce_notes e)"
  shows "\<forall>e \<in> set (chord_progression a').
           sorted_wrt (<) (ce_notes e) \<and> distinct (ce_notes e) \<and> 3 \<le> length (ce_notes e)"
  using assms
proof (induction ts arbitrary: a i)
  case Nil
  then show ?case by simp
next
  case (Cons tr ts)
  from Cons.prems(1) obtain a1 t1 act1 where
    one: "msg_loop bpm_of i tr (a, 0, {}) = Inr (a1, t1, act1)" and
    rest: "track_loop bpm_of (Suc i) ts a1 = Inr a'"
    by (auto split: sum.splits)
  have "\<forall>e \<in> set (chord_progression a1).
       sorted_wrt (<) (ce_notes e) \<and> distinct (ce_notes e) \<and> 3 \<le> length (ce_notes e)"
    using msg_loop_notes_ok[OF one _ Cons.prems(2)] by simp
  then show ?case using Cons.IH[OF rest] by blast
qed

text \<open>What a successful analysis is made of.\<close>

lemma analyze_chord_midi_Inr:
  assumes "analyze_chord_midi bpm_of src = Inr a"
  shows "\<exists>mid len a1. ms_load src = Inr mid \<and> mf_length mid = Inr len \<and>
    track_loop bpm_of 0 (tracks mid)
       \<lparr>filename = ms_name src, length_sec = len, an_ticks_per_beat = ticks_per_beat mid,
        num_tracks = length (tracks mid), chord_progression = [], key_signatures = [],
        tempo_changes = [], note_events = [], estimated_tempo = None, estimated_key = None,
        chord_count = None\<rparr> = Inr a1 \<and>
    a = a1\<lparr>estimated_tempo := Some (estimate_tempo a1), estimated_key := Some (estimate_key a1),
            chord_count := Some (int (length (chord_progression a1)))\<rparr>"
proof -
  from assms obtain mid where mid: "ms_load src = Inr mid"
    by (cases "ms_load src")
       (auto simp: analyze_chord_midi_def analyze_chord_midi_body_def split: py_exception.splits)
  from assms mid obtain len where len: "mf_length mid = Inr len"
    by (cases "mf_length mid")
       (auto simp: analyze_chord_midi_def analyze_chord_midi_body_def split: py_exception.splits)
  let ?a0 = "\<lparr>filename = ms_name src, length_sec = len, an_ticks_per_beat = ticks_per_beat mid,
        num_tracks = length (tracks mid), chord_progression = [], key_signatures = [],
        tempo_changes = [], note_events = [], estimated_tempo = None, estimated_key = None,
        chord_count = None\<rparr>"
  from assms mid len obtain a1 where a1: "track_loop bpm_of 0 (tracks mid) ?a0 = Inr a1"
    by (cases "track_loop bpm_of 0 (tracks mid) ?a0")
       (auto simp: analyze_chord_midi_def analyze_chord_midi_body_def split: py_exception.splits)
  have "a = a1\<lparr>estimated_tempo := Some (estimate_tempo a1),
              estimated_key := Some (estimate_key a1),
              chord_count := Some (int (length (chord_progression a1)))\<rparr>"
    using assms mid len a1
    by (auto simp add: analyze_chord_midi_def analyze_chord_midi_body_def Let_def
          estimate_key_def)
  with mid len a1 show ?thesis by blast
qed

lemma ex_midi_source_analysis:
  "analyze_chord_midi ex_bpm_of ex_midi_source =
     Inr \<lparr>filename = ''a.mid'', length_sec = 2, an_ticks_per_beat = 480, num_tracks = 2,
          chord_progression =
            [\<lparr>ce_time = 15, ce_notes = [60, 64, 67], ce_track = 1\<rparr>,
             \<lparr>ce_time = 35, ce_notes = [64, 67, 72], ce_track = 1\<rparr>,
             \<lparr>ce_time = 40, ce_notes = [64, 67, 72], ce_track = 1\<rparr>],
          key_signatures = [\<lparr>ks_time = 0, ks_key = ''Am''\<rparr>],
          tempo_changes = [\<lparr>tc_time = 0, tc_bpm = 120\<rparr>], note_events = [],
          estimated_tempo = Some 120, estimated_key = Some ''Am'', chord_count = Some 3\<rparr>"
  by (simp add: analyze_chord_midi_def analyze_chord_midi_body_def ex_midi_source_def
        ex_track_def ex_bpm_of_def estimate_tempo_def estimate_key_def insert_commute)

text \<open>
  C5. Every Chord Event in the chord progression of a successful analysis has notes in
  strictly ascending order, without a repeated pitch, and at least 3 of them.
\<close>

theorem chord_event_notes_sorted_distinct:
  assumes "analyze_chord_midi bpm_of src = Inr a" and "e \<in> set (chord_progression a)"
  shows "sorted_wrt (<) (ce_notes e) \<and> distinct (ce_notes e) \<and> 3 \<le> length (ce_notes e)"
proof -
  obtain mid len a1 where "ms_load src = Inr mid" and "mf_length mid = Inr len" and
    tl: "track_loop bpm_of 0 (tracks mid)
       \<lparr>filename = ms_name src, length_sec = len, an_ticks_per_beat = ticks_per_beat mid,
        num_tracks = length (tracks mid), chord_progression = [], key_signatures = [],
        tempo_changes = [], note_events = [], estimated_tempo = None, estimated_key = None,
        chord_count = None\<rparr> = Inr a1"
    and a: "a = a1\<lparr>estimated_tempo := Some (estimate_tempo a1),
                  estimated_key := Some (estimate_key a1),
                  chord_count := Some (int (length (chord_progression a1)))\<rparr>"
    using analyze_chord_midi_Inr[OF assms(1)] by blast
  have "\<forall>e \<in> set (chord_progression a1).
       sorted_wrt (<) (ce_notes e) \<and> distinct (ce_notes e) \<and> 3 \<le> length (ce_notes e)"
    using track_loop_notes_ok[OF tl] by simp
  moreover have "chord_progression a = chord_progression a1" using a by simp
  ultimately show ?thesis using assms(2) by simp
qed

text \<open>The second event of the example file.\<close>

theorem chord_event_notes_sorted_distinct_witness:
  "(\<exists>a. analyze_chord_midi ex_bpm_of ex_midi_source = Inr a \<and>
        \<lparr>ce_time = 35, ce_notes = [64, 67, 72], ce_track = 1\<rparr> \<in> set (chord_progression a)) \<and>
   sorted_wrt (<) [64, 67, 72 :: int] \<and> distinct [64, 67, 72 :: int] \<and>
   3 \<le> length [64, 67, 72 :: int]"
proof -
  let ?e = "\<lparr>ce_time = 35, ce_notes = [64, 67, 72], ce_track = 1\<rparr>"
  obtain a where a: "analyze_chord_midi ex_bpm_of ex_midi_source = Inr a"
    and e: "?e \<in> set (chord_progression a)"
    using ex_midi_source_analysis by simp
  from chord_event_notes_sorted_distinct[OF a e] a e show ?thesis by auto
qed

subsection \<open>Tempo, key and category\<close>

text \<open>
  C4. \<open>estimate_tempo\<close> is the bpm of the first Tempo Change and 120 when there is
  none; \<open>estimate_key\<close> is the key of the first Key Signature Entry and \<open>C\<close> when
  there is none. Later entries do not enter the result.
\<close>

theorem estimate_first_or_default:
  "estimate_tempo a = (case tempo_changes a of [] \<Rightarrow> 120 | tc # later \<Rightarrow> tc_bpm tc) \<and>
   estimate_key a = (case key_signatures a of [] \<Rightarrow> ''C'' | ks # later \<Rightarrow> ks_key ks)"
  by (simp add: estimate_tempo_def estimate_key_def split: list.splits)

text \<open>
  C3. The category label of an analysis with estimated tempo \<open>t\<close> and chord count
  \<open>c\<close> is the tempo bucket of \<open>t\<close>, a slash, and the count bucket of \<open>c\<close>; it
  depends on nothing else; and the three sample points have the stated labels.
\<close>

theorem categorize_chord_set_buckets:
  "(estimated_tempo a = Some t \<and> chord_count a = Some c \<longrightarrow>
      categorize_chord_set a = spec_tempo_bucket t @ ''/'' @ spec_count_bucket c) \<and>
   (estimated_tempo a = estimated_tempo b \<and> chord_count a = chord_count b \<longrightarrow>
      categorize_chord_set a = categorize_chord_set b) \<and>
   categorize_chord_set (a\<lparr>estimated_tempo := Some 79, chord_count := Some 9\<rparr>) =
     ''slow-progressions/complex'' \<and>
   categorize_chord_set (a\<lparr>estimated_tempo := Some 80, chord_count := Some 4\<rparr>) =
     ''medium-progressions/simple'' \<and>
   categorize_chord_set (a\<lparr>estimated_tempo := Some 141, chord_count := Some 5\<rparr>) =
     ''fast-progressions/standard''"
  by (simp add: categorize_chord_set_def spec_tempo_bucket_def spec_count_bucket_def)

text \<open>The analysis of the example file, at 120 bpm with 3 chords, and the boundary
  values 140 and 8.\<close>

theorem categorize_chord_set_buckets_witness:
  "categorize_chord_set (ex_analysis0\<lparr>estimated_tempo := Some 120, chord_count := Some 3\<rparr>) =
     ''medium-progressions/simple'' \<and>
   categorize_chord_set (ex_analysis0\<lparr>estimated_tempo := Some 140, chord_count := Some 8\<rparr>) =
     ''medium-progressions/standard'' \<and>
   categorize_chord_set (ex_analysis0\<lparr>estimated_tempo := Some 140, chord_count := Some 8\<rparr>) =
   categorize_chord_set
     (ex_analysis0\<lparr>filename := ''b.mid'', estimated_tempo := Some 140, chord_count := Some 8\<rparr>)"
proof -
  let ?a = "ex_analysis0\<lparr>estimated_tempo := Some 120, chord_count := Some 3\<rparr>"
  let ?b = "ex_analysis0\<lparr>estimated_tempo := Some 140, chord_count := Some 8\<rparr>"
  let ?c = "ex_analysis0\<lparr>filename := ''b.mid'', estimated_tempo := Some 140,
                          chord_count := Some 8\<rparr>"
  have 1: "categorize_chord_set ?a = ''medium-progressions/simple''"
    using categorize_chord_set_buckets[of ?a 120 3 ?a]
    by (simp add: spec_tempo_bucket_def spec_count_bucket_def)
  have 2: "categorize_chord_set ?b = ''medium-progressions/standard''"
    using categorize_chord_set_buckets[of ?b 140 8 ?c]
    by (simp add: spec_tempo_bucket_def spec_count_bucket_def)
  have "estimated_tempo ?b = estimated_tempo ?c \<and> chord_count ?b = chord_count ?c \<longrightarrow>
          categorize_chord_set ?b = categorize_chord_set ?c"
    using categorize_chord_set_buckets[of ?b 140 8 ?c] by blast
  then have 3: "categorize_chord_set ?b = categorize_chord_set ?c" by simp
  from 1 2 3 show ?thesis by (intro conjI)
qed

section \<open>Properties of the catalog\<close>

lemma add_to_category_nonempty: "add_to_category c info cats \<noteq> []"
  by (auto simp: add_to_category_def Let_def)

text \<open>
  C6. When \<open>process_chord_sets\<close> returns a catalog, having written it, the query on
  the resulting file system without a category and without a tempo range (also with the
  empty string as category) returns the catalog's \<open>chord_sets\<close> list itself: the same
  records in the same order.
\<close>

theorem catalog_round_trip:
  assumes "process_chord_sets env self fs = Inr (cat, fs')"
  shows "get_chord_sets_by_category self fs' None None = chord_sets cat \<and>
         get_chord_sets_by_category self fs' (Some '''') None = chord_sets cat"
proof -
  from assms have "fs_json fs' (catalog_path self) = Some cat"
    by (auto simp: process_chord_sets_def Let_def split: sum.splits option.splits prod.splits)
  then show ?thesis by (simp add: get_chord_sets_by_category_def)
qed

text \<open>The example run: two files found, one analysed, one with a parse error; the
  catalog holds the one record and the query returns it.\<close>

theorem catalog_round_trip_witness:
  "\<exists>cat fs'. process_chord_sets ex_environment ex_processor ex_file_system = Inr (cat, fs') \<and>
      total_files cat = 2 \<and>
      map original_path (chord_sets cat) = [''attached_assets/a.mid''] \<and>
      get_chord_sets_by_category ex_processor fs' None None = chord_sets cat"
proof -
  have bad: "analyze_chord_midi ex_bpm_of ex_bad_source =
      Inl \<lparr>err_filename = ''b.midi'', err_error = ''MThd not found'', err_status = ''error''\<rparr>"
    by (simp add: analyze_chord_midi_def analyze_chord_midi_body_def ex_bad_source_def)
  have names: "ms_path ex_midi_source = ''attached_assets/a.mid''"
    "ms_name ex_midi_source = ''a.mid''"
    by (simp_all add: ex_midi_source_def)
  obtain cat fs' where run: "process_chord_sets ex_environment ex_processor ex_file_system = Inr (cat, fs')"
    and tf: "total_files cat = 2"
    and op: "map original_path (chord_sets cat) = [''attached_assets/a.mid'']"
    by (simp add: process_chord_sets_def mkdir_def category_names_def ex_environment_def
          ex_midi_source_analysis bad names Let_def)
  have "get_chord_sets_by_category ex_processor fs' None None = chord_sets cat"
    using catalog_round_trip[OF run] by simp
  with run tf op show ?thesis by (intro exI[of _ cat] exI[of _ fs'] conjI)
qed

text \<open>Every record of a catalog that \<open>process_chord_sets\<close> returns carries an
  estimated tempo, so the default of the query is not taken on such a catalog.\<close>

lemma analyze_chord_midi_tempo_present:
  assumes "analyze_chord_midi bpm_of src = Inr a"
  shows "estimated_tempo a \<noteq> None"
proof -
  obtain a1 where "a = a1\<lparr>estimated_tempo := Some (estimate_tempo a1),
                           estimated_key := Some (estimate_key a1),
                           chord_count := Some (int (length (chord_progression a1)))\<rparr>"
    using analyze_chord_midi_Inr[OF assms] by blast
  then show ?thesis by simp
qed

lemma midi_file_loop_tempo_present:
  assumes "midi_file_loop env self files (fs, cat, pf) = Inr (fs', cat', pf')"
    and "\<forall>cs \<in> set (chord_sets cat). estimated_tempo (analysis cs) \<noteq> None"
  shows "\<forall>cs \<in> set (chord_sets cat'). estimated_tempo (analysis cs) \<noteq> None"
  using assms
proof (induction files arbitrary: fs cat pf)
  case Nil
  then show ?case by simp
next
  case (Cons f files)
  show ?case
  proof (cases "analyze_chord_midi (env_bpm_of env) f")
    case (Inl err)
    with Cons.prems(1) have "midi_file_loop env self files (fs, cat, pf) = Inr (fs', cat', pf')"
      by simp
    from Cons.IH[OF this Cons.prems(2)] show ?thesis .
  next
    case (Inr an)
    let ?c = "categorize_chord_set an"
    let ?target = "path_join (path_join (chord_sets_dir self) ?c) (ms_name f)"
    let ?info = "\<lparr>original_path = ms_path f, storage_path = ?target, category = ?c,
                  analysis = an\<rparr>"
    let ?cat1 = "cat\<lparr>chord_sets := chord_sets cat @ [?info],
                     categories := add_to_category ?c ?info (categories cat)\<rparr>"
    let ?fs1 = "fs\<lparr>fs_copied := (fs_copied fs)(?target \<mapsto> ms_path f)\<rparr>"
    from Cons.prems(1) Inr have
      rest: "midi_file_loop env self files (?fs1, ?cat1, pf @ [ms_name f]) = Inr (fs', cat', pf')"
      by (simp add: Let_def split: option.splits)
    have "estimated_tempo an \<noteq> None"
      using analyze_chord_midi_tempo_present[OF Inr] .
    with Cons.prems(2) have
      "\<forall>cs \<in> set (chord_sets ?cat1). estimated_tempo (analysis cs) \<noteq> None"
      by auto
    from Cons.IH[OF rest this] show ?thesis .
  qed
qed

lemma process_chord_sets_tempo_present:
  assumes "process_chord_sets env self fs = Inr (cat, fs')"
  shows "\<forall>cs \<in> set (chord_sets cat). estimated_tempo (analysis cs) \<noteq> None"
proof -
  from assms obtain fs2 fs3 pf where
    "midi_file_loop env self (env_glob_mid env @ env_glob_midi env)
       (fs2, \<lparr>processed_at = env_cwd env,
              total_files = length (env_glob_mid env @ env_glob_midi env),
              chord_sets = [], categories = []\<rparr>, []) = Inr (fs3, cat, pf)"
    by (auto simp: process_chord_sets_def Let_def split: sum.splits option.splits prod.splits)
  from midi_file_loop_tempo_present[OF this] show ?thesis by simp
qed

text \<open>
  C7. With a tempo range \<open>(lo, hi)\<close> the query returns, in their order, exactly those
  records of the answer without a tempo range whose estimated tempo (120 for a record
  that carries none) lies between \<open>lo\<close> and \<open>hi\<close>, both bounds included: a record with
  estimated tempo \<open>t\<close> is kept exactly when \<open>lo \<le> t \<le> hi\<close>, and so a record whose
  tempo equals \<open>lo\<close> or \<open>hi\<close> is kept.
\<close>

theorem tempo_range_inclusive:
  "get_chord_sets_by_category self fs c (Some (lo, hi)) =
     filter (\<lambda>cs. lo \<le> (case estimated_tempo (analysis cs) of Some t \<Rightarrow> t | None \<Rightarrow> 120) \<and>
                  (case estimated_tempo (analysis cs) of Some t \<Rightarrow> t | None \<Rightarrow> 120) \<le> hi)
       (get_chord_sets_by_category self fs c None) \<and>
   (estimated_tempo (analysis r) = Some t \<longrightarrow>
      (r \<in> set (get_chord_sets_by_category self fs c (Some (lo, hi))) \<longleftrightarrow>
       r \<in> set (get_chord_sets_by_category self fs c None) \<and> lo \<le> t \<and> t \<le> hi)) \<and>
   (r \<in> set (get_chord_sets_by_category self fs c None) \<and> lo \<le> hi \<and>
    (estimated_tempo (analysis r) = Some lo \<or> estimated_tempo (analysis r) = Some hi) \<longrightarrow>
      r \<in> set (get_chord_sets_by_category self fs c (Some (lo, hi))))"
proof -
  have eq: "get_chord_sets_by_category self fs c (Some (lo, hi)) =
     filter (\<lambda>cs. lo \<le> (case estimated_tempo (analysis cs) of Some t \<Rightarrow> t | None \<Rightarrow> 120) \<and>
                  (case estimated_tempo (analysis cs) of Some t \<Rightarrow> t | None \<Rightarrow> 120) \<le> hi)
       (get_chord_sets_by_category self fs c None)"
    by (simp add: get_chord_sets_by_category_def Let_def split: option.splits)
  have mem: "r \<in> set (get_chord_sets_by_category self fs c (Some (lo, hi))) \<longleftrightarrow>
       r \<in> set (get_chord_sets_by_category self fs c None) \<and> lo \<le> t \<and> t \<le> hi"
    if "estimated_tempo (analysis r) = Some t" for t
    using that by (subst eq) auto
  have ends: "r \<in> set (get_chord_sets_by_category self fs c (Some (lo, hi)))"
    if "r \<in> set (get_chord_sets_by_category self fs c None) \<and> lo \<le> hi \<and>
        (estimated_tempo (analysis r) = Some lo \<or> estimated_tempo (analysis r) = Some hi)"
    using that by (subst eq) auto
  from eq mem ends show ?thesis by blast
qed

text \<open>The example catalog queried for 120 to 140 bpm: the records at exactly 120 and at
  exactly 140 are returned, the one at 79.5 is not.\<close>

theorem tempo_range_inclusive_witness:
  "get_chord_sets_by_category ex_processor ex_catalog_fs None None =
     [ex_info ''s.mid'' (159 / 2) 2, ex_info ''m.mid'' 120 5, ex_info ''n.mid'' 140 9] \<and>
   get_chord_sets_by_category ex_processor ex_catalog_fs None (Some (120, 140)) =
     [ex_info ''m.mid'' 120 5, ex_info ''n.mid'' 140 9] \<and>
   ex_info ''n.mid'' 140 9 \<in>
     set (get_chord_sets_by_category ex_processor ex_catalog_fs None (Some (120, 140)))"
proof -
  have all: "get_chord_sets_by_category ex_processor ex_catalog_fs None None =
     [ex_info ''s.mid'' (159 / 2) 2, ex_info ''m.mid'' 120 5, ex_info ''n.mid'' 140 9]"
    by (simp add: get_chord_sets_by_category_def ex_catalog_fs_def ex_catalog_def)
  have t: "estimated_tempo (analysis (ex_info ''s.mid'' (159 / 2) 2)) = Some (159 / 2)"
    "estimated_tempo (analysis (ex_info ''m.mid'' 120 5)) = Some 120"
    "estimated_tempo (analysis (ex_info ''n.mid'' 140 9)) = Some 140"
    by (simp_all add: ex_info_def Let_def)
  note inst = tempo_range_inclusive[of ex_processor ex_catalog_fs None 120 140
                "ex_info ''n.mid'' 140 9" 140]
  have sel: "get_chord_sets_by_category ex_processor ex_catalog_fs None (Some (120, 140)) =
     [ex_info ''m.mid'' 120 5, ex_info ''n.mid'' 140 9]"
    using inst all t by simp
  have "ex_info ''n.mid'' 140 9 \<in>
     set (get_chord_sets_by_category ex_processor ex_catalog_fs None (Some (120, 140)))"
    using inst all t by simp
  with all sel show ?thesis by (intro conjI)
qed

section \<open>Properties of the ingestion pipeline\<close>

subsection \<open>The chord-token heuristic\<close>

text \<open>
  C8. A token is accepted exactly when it is not empty and either its first character is
  one of C, D, E, F, G, A, B, or it has at least two characters, the first \<open>b\<close> or
  \<open>#\<close> and the second one of those seven letters. \<open>C\<close>, \<open>Am\<close>, \<open>bB\<close> and
  \<open>#F\<close> are accepted; \<open>x\<close>, the empty token and \<open>Hello\<close> are rejected.
\<close>

theorem is_chord_symbol_iff:
  "(is_chord_symbol s \<longleftrightarrow>
      s \<noteq> [] \<and>
      (hd s \<in> {CHR ''C'', CHR ''D'', CHR ''E'', CHR ''F'', CHR ''G'', CHR ''A'', CHR ''B''} \<or>
       (2 \<le> length s \<and> hd s \<in> {CHR ''b'', CHR ''#''} \<and>
        s ! 1 \<in> {CHR ''C'', CHR ''D'', CHR ''E'', CHR ''F'', CHR ''G'', CHR ''A'', CHR ''B''}))) \<and>
   is_chord_symbol ''C'' \<and> is_chord_symbol ''Am'' \<and> is_chord_symbol ''bB'' \<and>
   is_chord_symbol ''#F'' \<and>
   \<not> is_chord_symbol ''x'' \<and> \<not> is_chord_symbol '''' \<and> \<not> is_chord_symbol ''Hello''"
proof -
  have gen: "is_chord_symbol s \<longleftrightarrow>
      s \<noteq> [] \<and>
      (hd s \<in> {CHR ''C'', CHR ''D'', CHR ''E'', CHR ''F'', CHR ''G'', CHR ''A'', CHR ''B''} \<or>
       (2 \<le> length s \<and> hd s \<in> {CHR ''b'', CHR ''#''} \<and>
        s ! 1 \<in> {CHR ''C'', CHR ''D'', CHR ''E'', CHR ''F'', CHR ''G'', CHR ''A'', CHR ''B''}))"
  proof (cases s)
    case Nil
    then show ?thesis by (simp add: is_chord_symbol_def)
  next
    case (Cons c cs)
    then show ?thesis
      by (cases cs) (auto simp: is_chord_symbol_def chord_roots_def)
  qed
  have ex: "is_chord_symbol ''C'' \<and> is_chord_symbol ''Am'' \<and> is_chord_symbol ''bB'' \<and>
      is_chord_symbol ''#F'' \<and>
      \<not> is_chord_symbol ''x'' \<and> \<not> is_chord_symbol '''' \<and> \<not> is_chord_symbol ''Hello''"
    by (simp add: is_chord_symbol_def chord_roots_def)
  from gen ex show ?thesis by blast
qed

subsection \<open>The loops of the text reader\<close>

lemma word_loop_filter: "word_loop ws pc = pc @ filter is_chord_symbol ws"
  by (induction ws arbitrary: pc) auto

lemma line_loop_filter:
  "line_loop ls cp =
     cp @ filter (\<lambda>pc. pc \<noteq> []) (map (\<lambda>l. filter is_chord_symbol (split_ws (strip l))) ls)"
  by (induction ls arbitrary: cp) (auto simp: Let_def word_loop_filter)

lemma line_loop_no_tokens:
  assumes "\<forall>l \<in> set ls. \<forall>w \<in> set (split_ws (strip l)). \<not> is_chord_symbol w"
  shows "line_loop ls [] = []"
proof -
  have "filter is_chord_symbol (split_ws (strip l)) = []" if "l \<in> set ls" for l
    using assms that by (auto simp: filter_empty_conv)
  then have "filter (\<lambda>pc. pc \<noteq> [])
      (map (\<lambda>l. filter is_chord_symbol (split_ws (strip l))) ls) = []"
    by (auto simp: filter_empty_conv)
  then show ?thesis by (simp add: line_loop_filter)
qed

subsection \<open>The loop over the extracted files\<close>

lemma rglob_loop_append:
  "rglob_loop R (xs @ ys) st = rglob_loop R ys (rglob_loop R xs st)"
proof (induction xs arbitrary: st)
  case Nil
  then show ?case by simp
next
  case (Cons x xs)
  obtain progs md where st: "st = (progs, md)" by (cases st)
  show ?case unfolding st by (simp add: Let_def Cons.IH)
qed

text \<open>One file contributes at most one record and one format name, and what it
  contributes does not depend on what was collected before it.\<close>

lemma rglob_loop_step:
  "\<exists>new fm k. \<forall>progs md. rglob_loop R (e # es) (progs, md) =
      rglob_loop R es
        (progs @ new, md\<lparr>file_count := file_count md + k, formats := formats md @ fm\<rparr>)"
proof -
  let ?sfx = "lower (de_suffix e)"
  consider
      (nofile) "\<not> de_is_file e"
    | (ismidi) "de_is_file e" "?sfx \<in> set [''.mid'', ''.midi'']"
    | (istext) "de_is_file e" "?sfx \<notin> set [''.mid'', ''.midi'']" "?sfx \<in> set [''.txt'', ''.chord'']"
    | (isjson) "de_is_file e" "?sfx \<notin> set [''.mid'', ''.midi'']"
        "?sfx \<notin> set [''.txt'', ''.chord'']" "?sfx = ''.json''"
    | (other) "de_is_file e" "?sfx \<notin> set [''.mid'', ''.midi'']"
        "?sfx \<notin> set [''.txt'', ''.chord'']" "?sfx \<noteq> ''.json''"
    by blast
  then show ?thesis
  proof cases
    case nofile
    then show ?thesis
      by (intro exI[of _ "[]"] exI[of _ 0]) simp
  next
    case ismidi
    show ?thesis
    proof (cases "truthy (process_midi_chords R e)")
      case True
      with ismidi show ?thesis
        by (intro exI[of _ "[the (process_midi_chords R e)]"] exI[of _ "[''MIDI'']"] exI[of _ 1])
           (simp add: Let_def)
    next
      case False
      with ismidi show ?thesis
        by (intro exI[of _ "[]"] exI[of _ 1]) (simp add: Let_def)
    qed
  next
    case istext
    show ?thesis
    proof (cases "truthy (process_text_chords e :: 'a prog_data option)")
      case True
      with istext show ?thesis
        by (intro exI[of _ "[the (process_text_chords e)]"] exI[of _ "[''Text'']"] exI[of _ 1])
           (simp add: Let_def)
    next
      case False
      with istext show ?thesis
        by (intro exI[of _ "[]"] exI[of _ 1]) (simp add: Let_def)
    qed
  next
    case isjson
    show ?thesis
    proof (cases "truthy (process_json_chords e)")
      case True
      with isjson show ?thesis
        by (intro exI[of _ "[the (process_json_chords e)]"] exI[of _ "[''JSON'']"] exI[of _ 1])
           (simp add: Let_def)
    next
      case False
      with isjson show ?thesis
        by (intro exI[of _ "[]"] exI[of _ 1]) (simp add: Let_def)
    qed
  next
    case other
    then show ?thesis
      by (intro exI[of _ "[]"] exI[of _ 1]) (simp add: Let_def)
  qed
qed

lemma rglob_loop_progs:
  "fst (rglob_loop R es (progs, md)) = progs @ fst (rglob_loop R es ([], md'))"
proof (induction es arbitrary: progs md md')
  case Nil
  then show ?case by simp
next
  case (Cons e es)
  obtain new fm k where step: "\<And>progs md. rglob_loop R (e # es) (progs, md) =
      rglob_loop R es
        (progs @ new, md\<lparr>file_count := file_count md + k, formats := formats md @ fm\<rparr>)"
    using rglob_loop_step[of R e es] by blast
  have "fst (rglob_loop R (e # es) (progs, md)) =
      (progs @ new) @ fst (rglob_loop R es ([], md'))"
    unfolding step by (rule Cons.IH)
  moreover have "fst (rglob_loop R (e # es) ([], md')) =
      new @ fst (rglob_loop R es ([], md'))"
    unfolding step using Cons.IH[of new _ md'] by simp
  ultimately show ?case by simp
qed

lemma rglob_loop_formats:
  "set (formats md) \<subseteq> set (formats (snd (rglob_loop R es (progs, md))))"
proof (induction es arbitrary: progs md)
  case Nil
  then show ?case by simp
next
  case (Cons e es)
  obtain new fm k where step: "\<And>progs md. rglob_loop R (e # es) (progs, md) =
      rglob_loop R es
        (progs @ new, md\<lparr>file_count := file_count md + k, formats := formats md @ fm\<rparr>)"
    using rglob_loop_step[of R e es] by blast
  have "set (formats (md\<lparr>file_count := file_count md + k, formats := formats md @ fm\<rparr>))
      \<subseteq> set (formats (snd (rglob_loop R (e # es) (progs, md))))"
    unfolding step by (rule Cons.IH)
  then show ?case by auto
qed

subsection \<open>The archive entry point\<close>

text \<open>
  C9. \<open>process_chord_zip\<close> always returns a result dictionary and never an exception.
  When a step raises, with message \<open>m\<close>, the result is the failure dictionary with that
  message; this is so in particular when the archive cannot be opened. When no step
  raises, the result is the success dictionary with the archive's stem as name, the path
  of the written file, the number of progression records and the metadata of the
  analysis.
\<close>

theorem process_chord_zip_never_raises:
  "(\<exists>r store'. process_chord_zip env store = (Inr r, store')) \<and>
   (fst (process_chord_zip_body env store) = Inl (PyException m) \<longrightarrow>
      fst (process_chord_zip env store) = Inr (ZipFailure m)) \<and>
   (ze_open_error env = Some (PyException m) \<longrightarrow>
      process_chord_zip env store = (Inr (ZipFailure m), store)) \<and>
   (ze_open_error env \<noteq> None \<or> ze_tempdir_error env \<noteq> None \<or> ze_extract_error env \<noteq> None \<or>
    ze_write_error env \<noteq> None \<or> ze_cleanup_error env \<noteq> None \<longrightarrow>
      (\<exists>m'. fst (process_chord_zip env store) = Inr (ZipFailure m'))) \<and>
   (ze_open_error env = None \<and> ze_tempdir_error env = None \<and> ze_extract_error env = None \<and>
    ze_write_error env = None \<and> ze_cleanup_error env = None \<longrightarrow>
      fst (process_chord_zip env store) =
        Inr (ZipSuccess (ze_stem env)
               (path_join zip_chord_sets_dir (ze_stem env @ ''_processed.json''))
               (int (length (progressions
                  (analyze_chord_files (ze_int_bpm_of env) (ze_listing env)))))
               (cd_metadata (analyze_chord_files (ze_int_bpm_of env) (ze_listing env)))))"
proof (intro conjI impI)
  obtain out store1 where body: "process_chord_zip_body env store = (out, store1)"
    by (cases "process_chord_zip_body env store")
  show "\<exists>r store'. process_chord_zip env store = (Inr r, store')"
  proof (cases out)
    case (Inl e)
    then show ?thesis using body by (cases e) (simp add: process_chord_zip_def)
  next
    case (Inr r)
    then show ?thesis using body by (simp add: process_chord_zip_def)
  qed
next
  assume "fst (process_chord_zip_body env store) = Inl (PyException m)"
  then show "fst (process_chord_zip env store) = Inr (ZipFailure m)"
    by (cases "process_chord_zip_body env store") (simp add: process_chord_zip_def)
next
  assume "ze_open_error env = Some (PyException m)"
  then show "process_chord_zip env store = (Inr (ZipFailure m), store)"
    by (simp add: process_chord_zip_def process_chord_zip_body_def)
next
  assume err: "ze_open_error env \<noteq> None \<or> ze_tempdir_error env \<noteq> None \<or>
    ze_extract_error env \<noteq> None \<or> ze_write_error env \<noteq> None \<or> ze_cleanup_error env \<noteq> None"
  have "\<exists>e. fst (process_chord_zip_body env store) = Inl e"
    using err
    by (auto simp: process_chord_zip_body_def leave_with_def Let_def split: option.splits)
  then obtain m' where "fst (process_chord_zip_body env store) = Inl (PyException m')"
    by (metis py_exception.exhaust)
  then have "fst (process_chord_zip env store) = Inr (ZipFailure m')"
    by (cases "process_chord_zip_body env store") (simp add: process_chord_zip_def)
  then show "\<exists>m'. fst (process_chord_zip env store) = Inr (ZipFailure m')" ..
next
  assume "ze_open_error env = None \<and> ze_tempdir_error env = None \<and>
    ze_extract_error env = None \<and> ze_write_error env = None \<and> ze_cleanup_error env = None"
  then show "fst (process_chord_zip env store) =
        Inr (ZipSuccess (ze_stem env)
               (path_join zip_chord_sets_dir (ze_stem env @ ''_processed.json''))
               (int (length (progressions
                  (analyze_chord_files (ze_int_bpm_of env) (ze_listing env)))))
               (cd_metadata (analyze_chord_files (ze_int_bpm_of env) (ze_listing env))))"
    by (simp add: process_chord_zip_def process_chord_zip_body_def leave_with_def Let_def)
qed

text \<open>An archive that cannot be opened, and one with two text files.\<close>

lemma ex_zip_env_analysis:
  "analyze_chord_files (ze_int_bpm_of ex_zip_env) (ze_listing ex_zip_env) =
      \<lparr>progressions =
         [TextProg \<lparr>tr_filename = ''song.chord'', tr_type = ''Text'',
                    chord_progressions = [[''C'', ''Am'', ''F'', ''G'']],
                    raw_content = ''C Am F G'' @ [CHR 0x0A] @ ''play it slowly''\<rparr>,
          TextProg \<lparr>tr_filename = ''notes.TXT'', tr_type = ''Text'',
                    chord_progressions = [],
                    raw_content = ''hello world'' @ [CHR 0x0A] @ ''  x y  z '' @ [CHR 0x0A]\<rparr>],
       cd_metadata = \<lparr>file_count = 2, formats = [''Text'', ''Text'']\<rparr>\<rparr>"
proof -
  have low: "lower ''.TXT'' = ''.txt''" "lower ''.chord'' = ''.chord''"
    by code_simp+
  show ?thesis
    by (simp add: analyze_chord_files_def ex_zip_env_def ex_chord_entry_def ex_text_entry_def
          low process_text_chords_def Let_def split_ws_def strip_def is_space_def
          is_chord_symbol_def chord_roots_def)
qed

theorem process_chord_zip_never_raises_witness:
  "process_chord_zip ex_zip_env_bad Map.empty =
     (Inr (ZipFailure ''File is not a zip file''), Map.empty) \<and>
   fst (process_chord_zip ex_zip_env Map.empty) =
     Inr (ZipSuccess ''set1'' ''storage/midi/chord-sets/set1_processed.json'' 2
            \<lparr>file_count = 2, formats = [''Text'', ''Text'']\<rparr>)"
proof -
  have bad: "ze_open_error ex_zip_env_bad = Some (PyException ''File is not a zip file'')"
    by (simp add: ex_zip_env_bad_def)
  have good: "ze_open_error ex_zip_env = None \<and> ze_tempdir_error ex_zip_env = None \<and>
      ze_extract_error ex_zip_env = None \<and> ze_write_error ex_zip_env = None \<and>
      ze_cleanup_error ex_zip_env = None"
    by (simp add: ex_zip_env_def)
  from process_chord_zip_never_raises
         [of ex_zip_env_bad Map.empty "''File is not a zip file''"] bad
  have 1: "process_chord_zip ex_zip_env_bad Map.empty =
     (Inr (ZipFailure ''File is not a zip file''), Map.empty)"
    by blast
  from process_chord_zip_never_raises[of ex_zip_env Map.empty "[]"] good
  have "fst (process_chord_zip ex_zip_env Map.empty) =
        Inr (ZipSuccess (ze_stem ex_zip_env)
               (path_join zip_chord_sets_dir (ze_stem ex_zip_env @ ''_processed.json''))
               (int (length (progressions
                  (analyze_chord_files (ze_int_bpm_of ex_zip_env) (ze_listing ex_zip_env)))))
               (cd_metadata (analyze_chord_files (ze_int_bpm_of ex_zip_env)
                  (ze_listing ex_zip_env))))"
    by blast
  then have 2: "fst (process_chord_zip ex_zip_env Map.empty) =
     Inr (ZipSuccess ''set1'' ''storage/midi/chord-sets/set1_processed.json'' 2
            \<lparr>file_count = 2, formats = [''Text'', ''Text'']\<rparr>)"
    unfolding ex_zip_env_analysis
    by (simp add: ex_zip_env_def path_join_def zip_chord_sets_dir_def)
  from 1 2 show ?thesis by (intro conjI)
qed

subsection \<open>A text file without chord tokens\<close>

text \<open>
  C10. Take a regular file with suffix \<open>.txt\<close> or \<open>.chord\<close> (in any letter case)
  that is read without error and none of whose words is accepted by the chord heuristic.
  Its record has an empty \<open>chord_progressions\<close> list and is still truthy. The loop over
  the files appends the record to the progressions, counts the file and appends
  \<open>Text\<close> to the formats, whatever was collected before and whatever follows. So
  with the file in the tree there is one progression record more than without it, the
  formats contain \<open>Text\<close>, and the \<open>chord_count\<close> of a successful
  \<open>process_chord_zip\<close> is one higher.
\<close>

theorem empty_text_record_kept:
  assumes "de_is_file e"
    and "lower (de_suffix e) = ''.txt'' \<or> lower (de_suffix e) = ''.chord''"
    and "de_text e = Inr content"
    and "\<forall>line \<in> set (split_on (CHR 0x0A) content).
           \<forall>word \<in> set (split_ws (strip line)). \<not> is_chord_symbol word"
  shows "process_text_chords e =
           Some (TextProg \<lparr>tr_filename = de_name e, tr_type = ''Text'',
                           chord_progressions = [], raw_content = take 500 content\<rparr>) \<and>
         truthy (process_text_chords e) \<and>
         rglob_loop R (e # rest) (progs, md) =
           rglob_loop R rest
             (progs @ [TextProg \<lparr>tr_filename = de_name e, tr_type = ''Text'',
                                  chord_progressions = [], raw_content = take 500 content\<rparr>],
              md\<lparr>file_count := file_count md + 1, formats := formats md @ [''Text'']\<rparr>) \<and>
         length (progressions (analyze_chord_files R (before @ e # after))) =
           Suc (length (progressions (analyze_chord_files R (before @ after)))) \<and>
         ''Text'' \<in> set (formats (cd_metadata (analyze_chord_files R (before @ e # after)))) \<and>
         (ze_listing env = before @ e # after \<and> ze_int_bpm_of env = R \<and>
          ze_open_error env = None \<and> ze_tempdir_error env = None \<and>
          ze_extract_error env = None \<and> ze_write_error env = None \<and>
          ze_cleanup_error env = None \<longrightarrow>
            (\<exists>name path md'. fst (process_chord_zip env store) =
               Inr (ZipSuccess name path
                      (1 + int (length (progressions (analyze_chord_files R (before @ after)))))
                      md') \<and>
               ''Text'' \<in> set (formats md')))"
proof -
  let ?rec = "TextProg \<lparr>tr_filename = de_name e, tr_type = ''Text'',
                         chord_progressions = [], raw_content = take 500 content\<rparr>"
  have rec: "process_text_chords e = Some ?rec"
    using assms(3) line_loop_no_tokens[OF assms(4)]
    by (simp add: process_text_chords_def Let_def)
  have tr: "truthy (process_text_chords e)"
    by (simp add: rec)
  have sfx: "lower (de_suffix e) \<notin> set [''.mid'', ''.midi'']"
    "lower (de_suffix e) \<in> set [''.txt'', ''.chord'']"
    using assms(2) by auto
  have step: "rglob_loop R (e # rest) (progs, md) =
      rglob_loop R rest
        (progs @ [?rec], md\<lparr>file_count := file_count md + 1, formats := formats md @ [''Text'']\<rparr>)"
    for rest progs md
    using assms(1) sfx by (simp add: Let_def rec)
  obtain p0 m0 where pre: "rglob_loop R before ([], \<lparr>file_count = 0, formats = []\<rparr>) = (p0, m0)"
    by (cases "rglob_loop R before ([], \<lparr>file_count = 0, formats = []\<rparr>)")
  let ?m1 = "m0\<lparr>file_count := file_count m0 + 1, formats := formats m0 @ [''Text'']\<rparr>"
  have with_e: "rglob_loop R (before @ e # after) ([], \<lparr>file_count = 0, formats = []\<rparr>) =
      rglob_loop R after (p0 @ [?rec], ?m1)"
    by (simp add: rglob_loop_append pre step del: rglob_loop.simps)
  have without_e: "rglob_loop R (before @ after) ([], \<lparr>file_count = 0, formats = []\<rparr>) =
      rglob_loop R after (p0, m0)"
    by (simp add: rglob_loop_append pre)
  have len: "length (progressions (analyze_chord_files R (before @ e # after))) =
      Suc (length (progressions (analyze_chord_files R (before @ after))))"
  proof -
    have "progressions (analyze_chord_files R (before @ e # after)) =
        fst (rglob_loop R after (p0 @ [?rec], ?m1))"
      by (simp add: analyze_chord_files_def with_e split: prod.splits)
    moreover have "progressions (analyze_chord_files R (before @ after)) =
        fst (rglob_loop R after (p0, m0))"
      by (simp add: analyze_chord_files_def without_e split: prod.splits)
    moreover have "fst (rglob_loop R after (p0 @ [?rec], ?m1)) =
        (p0 @ [?rec]) @ fst (rglob_loop R after ([], m0))"
      by (rule rglob_loop_progs)
    moreover have "fst (rglob_loop R after (p0, m0)) = p0 @ fst (rglob_loop R after ([], m0))"
      by (rule rglob_loop_progs)
    ultimately show ?thesis by simp
  qed
  have fm: "''Text'' \<in> set (formats (cd_metadata (analyze_chord_files R (before @ e # after))))"
  proof -
    have "cd_metadata (analyze_chord_files R (before @ e # after)) =
        snd (rglob_loop R after (p0 @ [?rec], ?m1))"
      by (simp add: analyze_chord_files_def with_e split: prod.splits)
    moreover have "set (formats ?m1) \<subseteq>
        set (formats (snd (rglob_loop R after (p0 @ [?rec], ?m1))))"
      by (rule rglob_loop_formats)
    ultimately show ?thesis by auto
  qed
  have zip: "\<exists>name path md'. fst (process_chord_zip env store) =
               Inr (ZipSuccess name path
                      (1 + int (length (progressions (analyze_chord_files R (before @ after)))))
                      md') \<and>
               ''Text'' \<in> set (formats md')"
    if ok: "ze_listing env = before @ e # after \<and> ze_int_bpm_of env = R \<and>
          ze_open_error env = None \<and> ze_tempdir_error env = None \<and>
          ze_extract_error env = None \<and> ze_write_error env = None \<and>
          ze_cleanup_error env = None"
  proof -
    have "fst (process_chord_zip env store) =
        Inr (ZipSuccess (ze_stem env)
               (path_join zip_chord_sets_dir (ze_stem env @ ''_processed.json''))
               (int (length (progressions (analyze_chord_files R (before @ e # after)))))
               (cd_metadata (analyze_chord_files R (before @ e # after))))"
      using ok
      by (simp add: process_chord_zip_def process_chord_zip_body_def leave_with_def Let_def)
    with len fm show ?thesis by simp
  qed
  from rec tr step len fm zip show ?thesis by blast
qed

text \<open>The example archive: the second file has no chord token, the first has four.\<close>

theorem empty_text_record_kept_witness:
  "de_is_file ex_text_entry \<and> lower (de_suffix ex_text_entry) = ''.txt'' \<and>
   process_text_chords ex_text_entry =
     Some (TextProg \<lparr>tr_filename = ''notes.TXT'', tr_type = ''Text'', chord_progressions = [],
                     raw_content = ''hello world'' @ [CHR 0x0A] @ ''  x y  z '' @ [CHR 0x0A]\<rparr>) \<and>
   length (progressions (analyze_chord_files ex_int_bpm_of ([ex_chord_entry] @ ex_text_entry # []))) =
     Suc (length (progressions (analyze_chord_files ex_int_bpm_of ([ex_chord_entry] @ [])))) \<and>
   ''Text'' \<in> set (formats (cd_metadata
       (analyze_chord_files ex_int_bpm_of ([ex_chord_entry] @ ex_text_entry # []))))"
proof -
  let ?content = "''hello world'' @ [CHR 0x0A] @ ''  x y  z '' @ [CHR 0x0A]"
  have f: "de_is_file ex_text_entry" by (simp add: ex_text_entry_def)
  have low: "lower (de_suffix ex_text_entry) = ''.txt''"
    unfolding ex_text_entry_def by code_simp
  have s: "lower (de_suffix ex_text_entry) = ''.txt'' \<or> lower (de_suffix ex_text_entry) = ''.chord''"
    using low by simp
  have c: "de_text ex_text_entry = Inr ?content" by (simp add: ex_text_entry_def)
  have n: "\<forall>line \<in> set (split_on (CHR 0x0A) ?content).
           \<forall>word \<in> set (split_ws (strip line)). \<not> is_chord_symbol word"
    by (simp add: split_ws_def strip_def is_space_def is_chord_symbol_def chord_roots_def)
  note inst = empty_text_record_kept[OF f s c n, of ex_int_bpm_of "[]" "[]" _ "[ex_chord_entry]" "[]"]
  have 1: "process_text_chords ex_text_entry =
     Some (TextProg \<lparr>tr_filename = ''notes.TXT'', tr_type = ''Text'', chord_progressions = [],
                     raw_content = ?content\<rparr>)"
    using inst by (simp add: ex_text_entry_def)
  from inst f low 1 show ?thesis by simp
qed

end
